theory Spec2Isabelle
  imports Complex_Main "HOL-Library.Product_Lexorder" "HOL-Library.AList"
begin

section \<open>Numbers\<close>

text \<open>
  The engines compute with Python floats. They are embedded as \<^typ>\<open>real\<close>: every
  arithmetic operation is exact, and a call of Python's \<^verbatim>\<open>round\<close> is the only place
  where a value is changed. \<^verbatim>\<open>round(x)\<close> rounds to the nearest integer, a tie going to
  the even neighbour; \<^verbatim>\<open>round(x, n)\<close> does the same at the n-th decimal.
\<close>

definition py_round :: "real \<Rightarrow> int" where
  "py_round x =
     (let f = \<lfloor>x\<rfloor>; d = x - of_int f
      in if d < 1/2 then f else if 1/2 < d then f + 1 else if even f then f else f + 1)"

definition round_nd :: "nat \<Rightarrow> real \<Rightarrow> real" where
  "round_nd n x = of_int (py_round (x * 10 ^ n)) / 10 ^ n"

definition round0 :: "real \<Rightarrow> real" where
  "round0 x = of_int (py_round x)"

definition tenth_multiple :: "real \<Rightarrow> bool" where
  "tenth_multiple x = (x = round_nd 1 x)"

section \<open>Opportunity pools (pools.py)\<close>

text \<open>
  A pool is the dictionary that \<^verbatim>\<open>compute_pools\<close> builds for one lever. The keys
  \<^verbatim>\<open>ceiling_fte\<close>, \<^verbatim>\<open>remaining_fte\<close> and \<^verbatim>\<open>ceiling_saving\<close> are present in
  every pool; \<^verbatim>\<open>remaining_contacts\<close>, \<^verbatim>\<open>remaining_seconds\<close> and
  \<^verbatim>\<open>remaining_saving\<close> only in some, so they are optional fields. The display-only
  keys (unit, breakdown, percentages) are left out.
\<close>

record pool =
  ceiling_fte :: real
  remaining_fte :: real
  ceiling_saving :: real
  remaining_contacts :: "real option"
  remaining_seconds :: "real option"
  remaining_saving :: "real option"

text \<open>
  The pools dictionary, as the list of its items in insertion order: \<open>map_of\<close> looks a
  key up and \<open>AList.update\<close> stores under a key.
\<close>

type_synonym pools = "(string \<times> pool) list"

record consumption =
  consumed_fte :: real
  consumed_contacts :: real
  consumed_seconds :: real
  capped :: bool
  pool_exhausted :: bool
  unknown_lever :: bool

definition lever_pool_map :: "string \<rightharpoonup> string" where
  "lever_pool_map = map_of
     [(''deflection'', ''deflection''),
      (''aht_reduction'', ''aht_reduction''),
      (''escalation_reduction'', ''escalation_reduction''),
      (''transfer_reduction'', ''transfer_reduction''),
      (''repeat_reduction'', ''repeat_reduction''),
      (''cost_reduction'', ''location''),
      (''shrinkage_reduction'', ''shrinkage_reduction'')]"

definition pool_key_of :: "string \<Rightarrow> string" where
  "pool_key_of lever = (case lever_pool_map lever of Some k \<Rightarrow> k | None \<Rightarrow> lever)"

definition deduct_pool :: "pool \<Rightarrow> real \<Rightarrow> real \<Rightarrow> real \<Rightarrow> real \<Rightarrow> pool" where
  "deduct_pool p actual_fte cap_ratio amount_contacts amount_seconds =
     p\<lparr> remaining_fte := round_nd 1 (remaining_fte p - actual_fte),
        remaining_contacts :=
          (case remaining_contacts p of
             Some rc \<Rightarrow> if 0 < amount_contacts
                        then Some (max 0 (round0 (rc - amount_contacts * cap_ratio)))
                        else Some rc
           | None \<Rightarrow> None),
        remaining_seconds :=
          (case remaining_seconds p of
             Some rs \<Rightarrow> if 0 < amount_seconds
                        then Some (max 0 (round0 (rs - amount_seconds * cap_ratio)))
                        else Some rs
           | None \<Rightarrow> None),
        remaining_saving :=
          (case remaining_saving p of
             Some rv \<Rightarrow> Some (max 0 (round0 (rv - actual_fte * ceiling_saving p
                                                  / max (ceiling_fte p) (1/10))))
           | None \<Rightarrow> None) \<rparr>"

text \<open>
  \<^verbatim>\<open>consume_pool\<close> mutates the pools dictionary and may log a warning. The model
  returns the result dictionary, the pools after the call and the warnings logged by it.
\<close>

definition consume_pool ::
  "pools \<Rightarrow> string \<Rightarrow> real \<Rightarrow> real \<Rightarrow> real \<Rightarrow> consumption \<times> pools \<times> string list" where
  "consume_pool ps lever amount_fte amount_contacts amount_seconds =
     (case map_of ps (pool_key_of lever) of
        None \<Rightarrow>
          (\<lparr> consumed_fte = 0, consumed_contacts = 0, consumed_seconds = 0, capped = True,
              pool_exhausted = False, unknown_lever = True \<rparr>,
           ps,
           [''consume_pool: unknown lever '' @ lever])
      | Some p \<Rightarrow>
          if remaining_fte p \<le> 0 then
            (\<lparr> consumed_fte = 0, consumed_contacts = 0, consumed_seconds = 0, capped = True,
                pool_exhausted = True, unknown_lever = False \<rparr>,
             ps, [])
          else
            (let actual_fte = min amount_fte (remaining_fte p);
                 cap_ratio = actual_fte / max amount_fte (1/1000);
                 p' = deduct_pool p actual_fte cap_ratio amount_contacts amount_seconds
             in (\<lparr> consumed_fte = round_nd 1 actual_fte,
                    consumed_contacts =
                      (if amount_contacts \<noteq> 0 then round0 (amount_contacts * cap_ratio) else 0),
                    consumed_seconds =
                      (if amount_seconds \<noteq> 0 then round0 (amount_seconds * cap_ratio) else 0),
                    capped = (cap_ratio < 95/100),
                    pool_exhausted = (remaining_fte p' \<le> 1/2),
                    unknown_lever = False \<rparr>,
                 AList.update (pool_key_of lever) p' ps, [])))"

section \<open>Intent enrichment (\<^verbatim>\<open>intent_profile.py\<close>)\<close>

text \<open>
  A queue is the dictionary produced by the loader. The key
  \<^verbatim>\<open>preventable_transfer_pct\<close> is read by the gross-impact engine with a default,
  so it is an optional field; the other keys are always present.
\<close>

record queue =
  intent :: string
  channel :: string
  volume :: real
  aht :: real
  acw :: real
  fcr :: real
  transfer :: real
  escalation :: real
  repeat :: real
  complexity :: real
  preventable_transfer_pct :: "real option"

record aht_decomp_rec =
  talk_sec :: real
  hold_sec :: real
  search_sec :: real
  other_sec :: real
  wrap_sec :: real
  total_handle_sec :: real
  reducible_sec :: real

record transfer_class_rec =
  total_rate :: real
  preventable_rate :: real
  structural_rate :: real
  preventable_share :: real

record enriched_queue = queue +
  repeatability :: real
  emotional_risk :: real
  auth_required :: real
  containment_feasibility :: real
  deflection_eligible_pct :: real
  aht_decomp :: aht_decomp_rec
  transfer_class :: transfer_class_rec
  migration_readiness :: real

text \<open>Strings: \<^verbatim>\<open>s.lower()\<close> on ASCII letters and the substring test \<^verbatim>\<open>kw in s\<close>.\<close>

definition char_lower :: "char \<Rightarrow> char" where
  "char_lower c =
     (case map_of (zip ''ABCDEFGHIJKLMNOPQRSTUVWXYZ'' ''abcdefghijklmnopqrstuvwxyz'') c of
        Some l \<Rightarrow> l
      | None \<Rightarrow> c)"

definition lower :: "string \<Rightarrow> string" where
  "lower s = map char_lower s"

fun starts_with :: "string \<Rightarrow> string \<Rightarrow> bool" where
  "starts_with [] s = True"
| "starts_with (k # ks) [] = False"
| "starts_with (k # ks) (c # cs) = (k = c \<and> starts_with ks cs)"

fun contains :: "string \<Rightarrow> string \<Rightarrow> bool" where
  "contains kw [] = (kw = [])"
| "contains kw (c # cs) = (starts_with kw (c # cs) \<or> contains kw cs)"

definition any_kw :: "string list \<Rightarrow> string \<Rightarrow> bool" where
  "any_kw kws s = list_ex (\<lambda>kw. contains kw s) kws"

definition repeatability_from_complexity :: "real \<Rightarrow> real" where
  "repeatability_from_complexity c =
     (if c \<le> 20/100 then 85/100
      else if c \<le> 35/100 then 65/100
      else if c \<le> 50/100 then 45/100
      else if c \<le> 70/100 then 25/100
      else 10/100)"

definition emotional_risk_from_complexity :: "real \<Rightarrow> string \<Rightarrow> real" where
  "emotional_risk_from_complexity c intent_name =
     (let name_lower = lower intent_name in
      if any_kw [''complaint'', ''dispute'', ''cancel'', ''fraud'', ''bereavement'',
                 ''hardship'', ''escalat'', ''threat'', ''legal''] name_lower then 85/100
      else if any_kw [''refund'', ''billing'', ''overcharge'', ''disconnect'',
                      ''terminate'', ''close account''] name_lower then 60/100
      else if c \<le> 25/100 then 10/100
      else if c \<le> 45/100 then 25/100
      else if c \<le> 65/100 then 45/100
      else 65/100)"

definition auth_required_from_complexity :: "real \<Rightarrow> string \<Rightarrow> real" where
  "auth_required_from_complexity c intent_name =
     (let name_lower = lower intent_name in
      if any_kw [''faq'', ''general'', ''product info'', ''hours'', ''location'',
                 ''status check'', ''tracking'', ''pricing''] name_lower then 10/100
      else if any_kw [''account change'', ''password'', ''transaction'', ''transfer'',
                      ''payment'', ''address change'', ''personal detail''] name_lower then 90/100
      else if c \<le> 25/100 then 20/100
      else if c \<le> 50/100 then 50/100
      else 75/100)"

definition containment_feasibility_of :: "real \<Rightarrow> real \<Rightarrow> real \<Rightarrow> real \<Rightarrow> real" where
  "containment_feasibility_of rep er ar c =
     (let base0 = rep * (40/100) + (1 - er) * (25/100) + (1 - ar) * (25/100) + (1 - c) * (10/100);
          base = (if 80/100 < ar then base0 * (50/100) else base0)
      in round_nd 3 (min 1 (max 0 base)))"

definition decompose_aht :: "real \<Rightarrow> real \<Rightarrow> real \<Rightarrow> aht_decomp_rec" where
  "decompose_aht aht_minutes acw_minutes c =
     (let aht_s = aht_minutes * 60;
          acw_s = acw_minutes * 60;
          (talk_pct, hold_pct, search_pct) =
            (if c \<le> 25/100 then (55/100, 5/100, 25/100)
             else if c \<le> 50/100 then (55/100, 10/100, 20/100)
             else if c \<le> 70/100 then (55/100, 15/100, 18/100)
             else (50/100, 20/100, 15/100));
          other_pct = max 0 (1 - talk_pct - hold_pct - search_pct)
      in \<lparr> talk_sec = round_nd 1 (aht_s * talk_pct),
            hold_sec = round_nd 1 (aht_s * hold_pct),
            search_sec = round_nd 1 (aht_s * search_pct),
            other_sec = round_nd 1 (aht_s * other_pct),
            wrap_sec = round_nd 1 acw_s,
            total_handle_sec = round_nd 1 (aht_s + acw_s),
            reducible_sec = round_nd 1 (aht_s * search_pct + acw_s * (80/100)
                                        + aht_s * talk_pct * (15/100)
                                        + aht_s * hold_pct * (30/100)) \<rparr>)"

definition transfer_classification_of :: "real \<Rightarrow> real \<Rightarrow> real \<Rightarrow> transfer_class_rec" where
  "transfer_classification_of transfer_rate escalation_rate c =
     (if transfer_rate \<le> 0 then
        \<lparr> total_rate = 0, preventable_rate = 0, structural_rate = 0, preventable_share = 0 \<rparr>
      else
        (let share0 = (if c \<le> 30/100 then 75/100
                       else if c \<le> 55/100 then 50/100
                       else if c \<le> 75/100 then 30/100
                       else 15/100);
             share = (if 15/100 < escalation_rate then share0 * (70/100) else share0)
         in \<lparr> total_rate = round_nd 4 transfer_rate,
               preventable_rate = round_nd 4 (transfer_rate * share),
               structural_rate = round_nd 4 (transfer_rate * (1 - share)),
               preventable_share = round_nd 3 share \<rparr>))"

definition migration_readiness_of :: "string \<Rightarrow> real \<Rightarrow> real \<Rightarrow> real \<Rightarrow> real" where
  "migration_readiness_of ch c er ar =
     (if ch \<in> set [''Chat'', ''Email'', ''App/Self-Service'', ''SMS/WhatsApp'', ''Social Media'']
      then 0
      else if ch = ''IVR'' then (20/100) * (1 - c)
      else round_nd 3 (max 0 (min 1 (80/100 - c * (30/100) - er * (25/100) - ar * (15/100)))))"

definition enrich_intent :: "queue \<Rightarrow> enriched_queue" where
  "enrich_intent q =
     (let c = complexity q;
          rep0 = repeatability_from_complexity c;
          rep = (if 15/100 < repeat q then min 1 (rep0 + 15/100) else rep0);
          er = emotional_risk_from_complexity c (intent q);
          ar = auth_required_from_complexity c (intent q)
      in queue.extend q
           (enriched_queue.fields
              (round_nd 3 rep) (round_nd 3 er) (round_nd 3 ar)
              (containment_feasibility_of rep er ar c)
              (round_nd 3 (rep * (1 - ar * (30/100))))
              (decompose_aht (aht q) (acw q) c)
              (transfer_classification_of (transfer q) (escalation q) c)
              (migration_readiness_of (channel q) c er ar)))"

definition enrich_intents :: "queue list \<Rightarrow> enriched_queue list" where
  "enrich_intents queues = map enrich_intent queues"

section \<open>Roles and parameters\<close>

record role_rec =
  role :: string
  headcount :: real
  costPerFTE :: real

text \<open>
  The parameters the engines read, with the keys present. \<^verbatim>\<open>other_params\<close> holds
  the keys that only the sensitivity analysis touches (it reads them with default 0).
\<close>

record params =
  horizon :: nat
  discountRate :: real
  wageInflation :: real
  shrinkage :: real
  targetShrinkage :: real
  grossHoursPerYear :: real
  volumeAnnualizationFactor :: real
  locationArbitrage :: real
  other_params :: "string \<rightharpoonup> real"

section \<open>Pool ceilings (pools.py)\<close>

record annual_queue = enriched_queue +
  annual_volume :: real

definition weighted_cost_of :: "role_rec list \<Rightarrow> real" where
  "weighted_cost_of rs =
     (let tot = sum_list (map headcount rs)
      in if 0 < tot then sum_list (map (\<lambda>r. headcount r * costPerFTE r) rs) / tot else 55000)"

definition net_prod_hours_of :: "params \<Rightarrow> real" where
  "net_prod_hours_of p = grossHoursPerYear p * (1 - shrinkage p)"

definition annualize :: "real \<Rightarrow> enriched_queue \<Rightarrow> annual_queue" where
  "annualize f q = enriched_queue.extend q (annual_queue.fields (volume q * f))"

definition avg_aht_sec_of :: "annual_queue list \<Rightarrow> real \<Rightarrow> real" where
  "avg_aht_sec_of aqs total_volume =
     sum_list (map (\<lambda>q. aht q * 60 * annual_volume q) aqs) / max total_volume 1"

definition deflection_pool :: "annual_queue list \<Rightarrow> real \<Rightarrow> real \<Rightarrow> real \<Rightarrow> pool" where
  "deflection_pool aqs total_volume net_prod_hours weighted_cost =
     (let deflectable_contacts =
            sum_list (map (\<lambda>q. annual_volume q * deflection_eligible_pct q
                                  * containment_feasibility q) aqs);
          deflection_hours = deflectable_contacts * avg_aht_sec_of aqs total_volume / 3600;
          deflection_fte = deflection_hours / max net_prod_hours 1
      in \<lparr> ceiling_fte = round_nd 1 deflection_fte,
            remaining_fte = round_nd 1 deflection_fte,
            ceiling_saving = round0 (deflection_fte * weighted_cost),
            remaining_contacts = Some (round0 deflectable_contacts),
            remaining_seconds = None,
            remaining_saving = None \<rparr>)"

definition aht_pool :: "annual_queue list \<Rightarrow> real \<Rightarrow> real \<Rightarrow> pool" where
  "aht_pool aqs net_prod_hours weighted_cost =
     (let total_reducible_seconds =
            sum_list (map (\<lambda>q. annual_volume q * reducible_sec (aht_decomp q)) aqs);
          aht_hours = total_reducible_seconds / 3600;
          aht_fte = aht_hours / max net_prod_hours 1
      in \<lparr> ceiling_fte = round_nd 1 aht_fte,
            remaining_fte = round_nd 1 aht_fte,
            ceiling_saving = round0 (aht_fte * weighted_cost),
            remaining_contacts = None,
            remaining_seconds = Some (round0 total_reducible_seconds),
            remaining_saving = None \<rparr>)"

definition transfer_pool :: "annual_queue list \<Rightarrow> real \<Rightarrow> real \<Rightarrow> pool" where
  "transfer_pool aqs net_prod_hours weighted_cost =
     (let total_preventable_transfers =
            sum_list (map (\<lambda>q. annual_volume q * preventable_rate (transfer_class q)) aqs);
          transfer_hours = total_preventable_transfers * 180 / 3600;
          transfer_fte = transfer_hours / max net_prod_hours 1
      in \<lparr> ceiling_fte = round_nd 1 transfer_fte,
            remaining_fte = round_nd 1 transfer_fte,
            ceiling_saving = round0 (transfer_fte * weighted_cost),
            remaining_contacts = Some (round0 total_preventable_transfers),
            remaining_seconds = None,
            remaining_saving = None \<rparr>)"

definition escalation_pool :: "annual_queue list \<Rightarrow> real \<Rightarrow> real \<Rightarrow> pool" where
  "escalation_pool aqs net_prod_hours weighted_cost =
     (let total_preventable_escalations =
            sum_list (map (\<lambda>q. annual_volume q * escalation q
                                  * max (10/100) (60/100 - complexity q * (50/100))) aqs);
          esc_hours = total_preventable_escalations * 300 / 3600;
          esc_fte = esc_hours / max net_prod_hours 1
      in \<lparr> ceiling_fte = round_nd 1 esc_fte,
            remaining_fte = round_nd 1 esc_fte,
            ceiling_saving = round0 (esc_fte * weighted_cost),
            remaining_contacts = Some (round0 total_preventable_escalations),
            remaining_seconds = None,
            remaining_saving = None \<rparr>)"

definition repeat_pool :: "annual_queue list \<Rightarrow> real \<Rightarrow> real \<Rightarrow> real \<Rightarrow> pool" where
  "repeat_pool aqs total_volume net_prod_hours weighted_cost =
     (let weighted_repeat =
            sum_list (map (\<lambda>q. repeat q * annual_volume q) aqs) / max total_volume 1;
          use_repeat_fallback = (weighted_repeat < 2/100);
          weighted_fcr = sum_list (map (\<lambda>q. fcr q * annual_volume q) aqs) / max total_volume 1;
          fallback_repeat = max (5/100) ((1 - weighted_fcr) * (60/100));
          reducible = (\<lambda>q.
            let repeat_rate = (if use_repeat_fallback then fallback_repeat else repeat q);
                fcr_target = 90/100 - complexity q * (15/100);
                fcr_gap = max 0 (fcr_target - fcr q);
                r0 = annual_volume q * repeat_rate * min 1 (fcr_gap / max repeat_rate (1/100))
            in min r0 (annual_volume q * repeat_rate * (70/100)));
          total_repeat_contacts = sum_list (map reducible aqs);
          repeat_hours = total_repeat_contacts * avg_aht_sec_of aqs total_volume / 3600;
          repeat_fte = repeat_hours / max net_prod_hours 1
      in \<lparr> ceiling_fte = round_nd 1 repeat_fte,
            remaining_fte = round_nd 1 repeat_fte,
            ceiling_saving = round0 (repeat_fte * weighted_cost),
            remaining_contacts = Some (round0 total_repeat_contacts),
            remaining_seconds = None,
            remaining_saving = None \<rparr>)"

definition location_pool ::
  "annual_queue list \<Rightarrow> role_rec list \<Rightarrow> params \<Rightarrow> real \<Rightarrow> real \<Rightarrow> pool" where
  "location_pool aqs rs p total_volume weighted_cost =
     (let migratable_volume =
            sum_list (map (\<lambda>q. annual_volume q * migration_readiness q) aqs);
          migratable_share = migratable_volume / max total_volume 1;
          migratable_roles = [''Agent L1'', ''Agent L2 / Specialist'', ''Back-Office / Processing''];
          migratable_fte =
            sum_list (map headcount (filter (\<lambda>r. role r \<in> set migratable_roles) rs));
          migratable_fte_adjusted = migratable_fte * migratable_share;
          location_saving = migratable_fte_adjusted * weighted_cost * locationArbitrage p
      in \<lparr> ceiling_fte = round_nd 1 migratable_fte_adjusted,
            remaining_fte = round_nd 1 migratable_fte_adjusted,
            ceiling_saving = round0 location_saving,
            remaining_contacts = None,
            remaining_seconds = None,
            remaining_saving = Some (round0 location_saving) \<rparr>)"

definition shrinkage_pool :: "role_rec list \<Rightarrow> params \<Rightarrow> real \<Rightarrow> pool" where
  "shrinkage_pool rs p weighted_cost =
     (let total_fte = sum_list (map headcount rs);
          shrinkage_gap = max 0 (shrinkage p - targetShrinkage p);
          shrinkage_fte = total_fte * shrinkage_gap;
          shrinkage_saving = shrinkage_fte * weighted_cost
      in \<lparr> ceiling_fte = round_nd 1 shrinkage_fte,
            remaining_fte = round_nd 1 shrinkage_fte,
            ceiling_saving = round0 shrinkage_saving,
            remaining_contacts = None,
            remaining_seconds = None,
            remaining_saving = Some (round0 shrinkage_saving) \<rparr>)"

text \<open>
  \<^verbatim>\<open>compute_pools\<close> returns the pools dictionary and the annualization factor (the
  summary it also returns is for display).
\<close>

definition compute_pools :: "enriched_queue list \<Rightarrow> role_rec list \<Rightarrow> params \<Rightarrow> pools \<times> real" where
  "compute_pools enriched_queues rs p =
     (let total_volume_raw = sum_list (map volume enriched_queues);
          net_prod_hours = net_prod_hours_of p;
          annualization = volumeAnnualizationFactor p;
          total_volume = total_volume_raw * annualization;
          ann_queues = map (annualize annualization) enriched_queues;
          weighted_cost = weighted_cost_of rs
      in ([(''deflection'', deflection_pool ann_queues total_volume net_prod_hours weighted_cost),
           (''aht_reduction'', aht_pool ann_queues net_prod_hours weighted_cost),
           (''transfer_reduction'', transfer_pool ann_queues net_prod_hours weighted_cost),
           (''escalation_reduction'', escalation_pool ann_queues net_prod_hours weighted_cost),
           (''repeat_reduction'', repeat_pool ann_queues total_volume net_prod_hours weighted_cost),
           (''location'', location_pool ann_queues rs p total_volume weighted_cost),
           (''shrinkage_reduction'', shrinkage_pool rs p weighted_cost)],
          annualization))"

section \<open>Initiatives\<close>

text \<open>
  An initiative is a dictionary that the cascade reads and annotates in place. The input
  keys come first; \<^verbatim>\<open>benefitEndMonth\<close> is read with a default and is optional. A key
  written by the cascade, such as \<^verbatim>\<open>_fteImpact\<close>, is the optional field
  \<open>out_fteImpact\<close>: it is \<open>None\<close> while the key is absent. The explanatory
  \<^verbatim>\<open>_mechanism\<close> string is not modelled.
\<close>

record initiative =
  init_id :: string
  layer :: string
  lever :: string
  impact :: real
  adoption :: real
  channels :: "string list"
  roles :: "string list"
  ramp :: real
  startMonth :: int
  benefitEndMonth :: "int option"
  enabled :: bool
  matchScore :: real
  out_fteImpact :: "real option"
  out_annualSaving :: "real option"
  out_effectiveImpact :: "real option"
  out_contributionPct :: "real option"
  out_poolConsumed :: "real option"
  out_poolCapped :: "bool option"
  out_grossFTE :: "real option"
  out_grossSaving :: "real option"
  out_rampPcts :: "real list option"
  out_yearlyFactors :: "real list option"
  out_startMonth :: "int option"
  out_endMonth :: "int option"
  out_rampCompleteMonth :: "real option"
  out_linkedQueues :: "nat option"
  out_capApplied :: "bool option"

section \<open>Gross impact (gross.py)\<close>

text \<open>
  The result dictionary of a gross-impact formula. \<^verbatim>\<open>gross_fte_migrated\<close> and
  \<^verbatim>\<open>_is_location\<close> are set by the location formula only and read with the defaults
  0 and False, which the other formulas carry here.
\<close>

record gross =
  gross_fte :: real
  gross_contacts :: real
  gross_seconds :: real
  gross_saving :: real
  gross_fte_migrated :: real
  is_location :: bool
  eligible_volume :: real

definition gross_deflection ::
  "enriched_queue list \<Rightarrow> real \<Rightarrow> real \<Rightarrow> real \<Rightarrow> real \<Rightarrow> gross" where
  "gross_deflection queues cost net_hours imp adopt =
     (let total_deflectable =
            sum_list (map (\<lambda>q. volume q * (deflection_eligible_pct q
                                  * min imp (containment_feasibility q) * adopt)) queues);
          avg_aht_sec = sum_list (map (\<lambda>q. aht q * 60 * volume q) queues)
                        / max (sum_list (map volume queues)) 1;
          hours_saved = total_deflectable * avg_aht_sec / 3600;
          g = hours_saved / max net_hours 1
      in \<lparr> gross_fte = round_nd 1 g, gross_contacts = round0 total_deflectable,
            gross_seconds = 0, gross_saving = round0 (g * cost), gross_fte_migrated = 0,
            is_location = False, eligible_volume = sum_list (map volume queues) \<rparr>)"

definition gross_aht_reduction ::
  "enriched_queue list \<Rightarrow> real \<Rightarrow> real \<Rightarrow> real \<Rightarrow> real \<Rightarrow> real \<Rightarrow> gross" where
  "gross_aht_reduction queues cost net_hours imp adopt total_vol =
     (let total_seconds_saved =
            sum_list (map (\<lambda>q. volume q * (reducible_sec (aht_decomp q) * imp * adopt)) queues);
          hours_saved = total_seconds_saved / 3600;
          g = hours_saved / max net_hours 1
      in \<lparr> gross_fte = round_nd 1 g, gross_contacts = 0,
            gross_seconds = round0 total_seconds_saved, gross_saving = round0 (g * cost),
            gross_fte_migrated = 0, is_location = False, eligible_volume = total_vol \<rparr>)"

definition gross_escalation ::
  "enriched_queue list \<Rightarrow> real \<Rightarrow> real \<Rightarrow> real \<Rightarrow> real \<Rightarrow> gross" where
  "gross_escalation queues cost net_hours imp adopt =
     (let total_prevented =
            sum_list (map (\<lambda>q. volume q * escalation q
                                  * max (10/100) (60/100 - complexity q * (50/100))
                                  * imp * adopt) queues);
          hours_saved = total_prevented * 900 / 3600;
          g = hours_saved / max net_hours 1
      in \<lparr> gross_fte = round_nd 1 g, gross_contacts = round0 total_prevented,
            gross_seconds = 0, gross_saving = round0 (g * cost), gross_fte_migrated = 0,
            is_location = False, eligible_volume = sum_list (map volume queues) \<rparr>)"

definition gross_transfer ::
  "enriched_queue list \<Rightarrow> real \<Rightarrow> real \<Rightarrow> real \<Rightarrow> real \<Rightarrow> gross" where
  "gross_transfer queues cost net_hours imp adopt =
     (let total_prevented =
            sum_list (map (\<lambda>q.
              let transfer_rate = transfer q;
                  prev_share = (case preventable_transfer_pct q of
                                  Some v \<Rightarrow> v
                                | None \<Rightarrow> max (15/100) (55/100 - complexity q * (40/100)))
              in volume q * transfer_rate * prev_share * imp * adopt) queues);
          hours_saved = total_prevented * 180 / 3600;
          g = hours_saved / max net_hours 1
      in \<lparr> gross_fte = round_nd 1 g, gross_contacts = round0 total_prevented,
            gross_seconds = 0, gross_saving = round0 (g * cost), gross_fte_migrated = 0,
            is_location = False, eligible_volume = sum_list (map volume queues) \<rparr>)"

definition gross_repeat ::
  "enriched_queue list \<Rightarrow> real \<Rightarrow> real \<Rightarrow> real \<Rightarrow> real \<Rightarrow> gross" where
  "gross_repeat queues cost net_hours imp adopt =
     (let total_vol = sum_list (map volume queues);
          weighted_repeat =
            (if 0 < total_vol
             then sum_list (map (\<lambda>q. repeat q * volume q) queues) / total_vol else 0);
          use_fallback = (weighted_repeat < 2/100);
          weighted_fcr = sum_list (map (\<lambda>q. fcr q * volume q) queues) / max total_vol 1;
          fallback_repeat = max (5/100) ((1 - weighted_fcr) * (60/100));
          total_eliminated =
            sum_list (map (\<lambda>q.
              let repeat_rate = (if use_fallback then fallback_repeat else repeat q)
              in min (volume q * repeat_rate * imp * adopt)
                     (volume q * repeat_rate * (70/100))) queues);
          avg_aht_sec = sum_list (map (\<lambda>q. aht q * 60 * volume q) queues)
                        / max (sum_list (map volume queues)) 1;
          hours_saved = total_eliminated * avg_aht_sec / 3600;
          g = hours_saved / max net_hours 1
      in \<lparr> gross_fte = round_nd 1 g, gross_contacts = round0 total_eliminated,
            gross_seconds = 0, gross_saving = round0 (g * cost), gross_fte_migrated = 0,
            is_location = False, eligible_volume = sum_list (map volume queues) \<rparr>)"

definition gross_location ::
  "enriched_queue list \<Rightarrow> real \<Rightarrow> real \<Rightarrow> real \<Rightarrow> real \<Rightarrow> params \<Rightarrow> gross" where
  "gross_location queues affected_fte cost imp adopt p =
     (let total_vol = sum_list (map volume queues);
          migratable_share =
            (if 0 < total_vol
             then sum_list (map (\<lambda>q. volume q * migration_readiness q) queues) / total_vol
             else 0);
          fte_migrated = affected_fte * migratable_share * imp * adopt;
          saving = fte_migrated * cost * locationArbitrage p
      in \<lparr> gross_fte = 0, gross_contacts = 0, gross_seconds = 0,
            gross_saving = round0 saving, gross_fte_migrated = round_nd 1 fte_migrated,
            is_location = True, eligible_volume = total_vol \<rparr>)"

definition gross_shrinkage :: "real \<Rightarrow> real \<Rightarrow> real \<Rightarrow> real \<Rightarrow> params \<Rightarrow> gross" where
  "gross_shrinkage affected_fte cost imp adopt p =
     (let current_shrinkage = shrinkage p;
          max_reduction = max 0 (current_shrinkage - targetShrinkage p);
          shrinkage_reduction = min (current_shrinkage * imp * adopt) max_reduction;
          fte_freed = affected_fte * shrinkage_reduction;
          saving = fte_freed * cost
      in \<lparr> gross_fte = round_nd 1 fte_freed, gross_contacts = 0, gross_seconds = 0,
            gross_saving = round0 saving, gross_fte_migrated = 0,
            is_location = False, eligible_volume = 0 \<rparr>)"

definition gross_generic :: "real \<Rightarrow> real \<Rightarrow> real \<Rightarrow> real \<Rightarrow> gross" where
  "gross_generic affected_fte cost imp adopt =
     (let raw_fte = affected_fte * imp * adopt * (75/100);
          saving = raw_fte * cost
      in \<lparr> gross_fte = round_nd 1 raw_fte, gross_contacts = 0, gross_seconds = 0,
            gross_saving = round0 saving, gross_fte_migrated = 0,
            is_location = False, eligible_volume = 0 \<rparr>)"

text \<open>The queues an initiative targets: those of its channels, or all queues when none matches.\<close>

definition matching_queues :: "initiative \<Rightarrow> enriched_queue list \<Rightarrow> enriched_queue list" where
  "matching_queues init enriched_queues =
     (let m = filter (\<lambda>q. channel q \<in> set (channels init)) enriched_queues
      in if m = [] then enriched_queues else m)"

definition affected_roles :: "initiative \<Rightarrow> role_rec list \<Rightarrow> role_rec list" where
  "affected_roles init rs = filter (\<lambda>r. role r \<in> set (roles init)) rs"

text \<open>
  The dispatch of \<^verbatim>\<open>compute_gross_impact\<close> on the lever, for a given list of
  matching queues. The pools argument of the source is passed on but never read.
\<close>

definition gross_dispatch ::
  "initiative \<Rightarrow> enriched_queue list \<Rightarrow> role_rec list \<Rightarrow> params \<Rightarrow> gross" where
  "gross_dispatch init mq rs p =
     (let imp = impact init;
          adopt = adoption init;
          aff = affected_roles init rs;
          affected_fte = sum_list (map headcount aff);
          weighted_cost = weighted_cost_of aff;
          net_prod_hours = net_prod_hours_of p;
          total_matching_volume = sum_list (map volume mq)
      in if lever init = ''deflection'' then
           gross_deflection mq weighted_cost net_prod_hours imp adopt
         else if lever init = ''aht_reduction'' then
           gross_aht_reduction mq weighted_cost net_prod_hours imp adopt total_matching_volume
         else if lever init = ''escalation_reduction'' then
           gross_escalation mq weighted_cost net_prod_hours imp adopt
         else if lever init = ''repeat_reduction'' then
           gross_repeat mq weighted_cost net_prod_hours imp adopt
         else if lever init = ''transfer_reduction'' then
           gross_transfer mq weighted_cost net_prod_hours imp adopt
         else if lever init = ''cost_reduction'' then
           gross_location mq affected_fte weighted_cost imp adopt p
         else if lever init = ''shrinkage_reduction'' then
           gross_shrinkage affected_fte weighted_cost imp adopt p
         else
           gross_generic affected_fte weighted_cost imp adopt)"

definition compute_gross_impact ::
  "initiative \<Rightarrow> enriched_queue list \<Rightarrow> role_rec list \<Rightarrow> params \<Rightarrow> gross" where
  "compute_gross_impact init enriched_queues rs p =
     gross_dispatch init (matching_queues init enriched_queues) rs p"

section \<open>Benefit phasing (waterfall.py)\<close>

text \<open>
  \<^verbatim>\<open>math.exp\<close> is the exponential function of the reals. It has no code equation:
  an evaluation leaves its calls as they are.
\<close>

definition math_exp :: "real \<Rightarrow> real" where
  "math_exp x = exp x"

declare math_exp_def [code del]

definition s_curve_ramp :: "real \<Rightarrow> real \<Rightarrow> real" where
  "s_curve_ramp months_since_golive ramp_months =
     (if months_since_golive \<le> 0 then 0
      else if ramp_months \<le> months_since_golive then 1
      else
        (let midpoint = ramp_months * (45/100);
             k = 6 / ramp_months;
             raw = 1 / (1 + math_exp (- k * (months_since_golive - midpoint)));
             floor_v = 1 / (1 + math_exp (- k * (0 - midpoint)));
             ceiling_v = 1 / (1 + math_exp (- k * (ramp_months - midpoint)));
             scaled = (raw - floor_v) / max (ceiling_v - floor_v) (1/1000)
         in max 0 (min 1 scaled)))"

definition compute_yearly_factors :: "int \<Rightarrow> int \<Rightarrow> nat \<Rightarrow> real \<Rightarrow> real list" where
  "compute_yearly_factors start_month end_month0 horizon_years ramp_months =
     (let total_months = int horizon_years * 12;
          end_month1 = (if end_month0 \<le> 0 then total_months else end_month0);
          end_month = min end_month1 total_months
      in map (\<lambda>yr.
               let yr_start = int yr * 12 + 1;
                   yr_end = (int yr + 1) * 12;
                   active = filter (\<lambda>m. \<not> (m < start_month \<or> end_month < m)) [yr_start..yr_end];
                   month_sum =
                     sum_list (map (\<lambda>m. s_curve_ramp (of_int (m - start_month + 1)) ramp_months)
                                   active);
                   active_months = length active
               in if 0 < active_months
                  then round_nd 4 (month_sum / real active_months * real active_months / 12)
                  else 0)
             [0..<horizon_years])"

section \<open>The waterfall cascade (waterfall.py, \<^verbatim>\<open>run_waterfall\<close>)\<close>

definition INITIATIVE_FTE_CAPS :: "string \<rightharpoonup> real" where
  "INITIATIVE_FTE_CAPS = map_of
     [(''deflection'', 18/100), (''aht_reduction'', 12/100), (''escalation_reduction'', 10/100),
      (''repeat_reduction'', 12/100), (''shrinkage_reduction'', 10/100),
      (''cost_reduction'', 15/100)]"

definition ABSOLUTE_SINGLE_INIT_CAP :: real where
  "ABSOLUTE_SINGLE_INIT_CAP = 20/100"

definition PER_ROLE_MAX_REDUCTION :: real where
  "PER_ROLE_MAX_REDUCTION = 45/100"

definition LEVER_ORDER :: "string list" where
  "LEVER_ORDER = [''deflection'', ''aht_reduction'', ''repeat_reduction'', ''transfer_reduction'',
                  ''escalation_reduction'', ''shrinkage_reduction'', ''cost_reduction'']"

definition layer_order :: "string \<rightharpoonup> nat" where
  "layer_order = map_of [(''AI & Automation'', 0), (''Operating Model'', 1),
                         (''Location Strategy'', 2)]"

definition lever_order_map :: "string \<rightharpoonup> nat" where
  "lever_order_map = map_of (zip LEVER_ORDER [0..<length LEVER_ORDER])"

definition type_cap_factor :: "string \<Rightarrow> real" where
  "type_cap_factor lv = (case INITIATIVE_FTE_CAPS lv of Some c \<Rightarrow> c | None \<Rightarrow> 12/100)"

definition sort_key_of :: "initiative \<Rightarrow> nat \<times> nat \<times> real" where
  "sort_key_of x =
     ((case layer_order (layer x) of Some n \<Rightarrow> n | None \<Rightarrow> 9),
      (case lever_order_map (lever x) of Some n \<Rightarrow> n | None \<Rightarrow> 9),
      - matchScore x)"

record data =
  data_roles :: "role_rec list"
  data_queues :: "queue list"
  data_params :: params

record audit_entry =
  audit_id :: string
  audit_lever :: string
  audit_gross_fte :: real
  audit_net_fte :: real
  audit_saving :: real
  audit_pool_capped :: bool

text \<open>
  The state that the cascade loop mutates: the pools, the running per-role total
  \<^verbatim>\<open>role_cum\<close>, the per-role yearly ledger of \<^verbatim>\<open>role_impact\<close>, the initiative
  dictionaries (addressed by their position in the caller's list), the audit trail and
  the warnings logged. The two role dictionaries are only ever read at names of the role
  roster, where they are defined, so they are total functions here.
\<close>

record cascade_state =
  cs_pools :: pools
  role_cum :: "string \<Rightarrow> real"
  role_impact_yearly :: "string \<Rightarrow> real list"
  cs_inits :: "initiative list"
  audit_trail :: "audit_entry list"
  warnings :: "string list"

definition linked_queues :: "initiative \<Rightarrow> queue list \<Rightarrow> nat" where
  "linked_queues init queues = length (filter (\<lambda>q. channel q \<in> set (channels init)) queues)"

definition benefit_end_of :: "initiative \<Rightarrow> int" where
  "benefit_end_of init = (case benefitEndMonth init of Some b \<Rightarrow> b | None \<Rightarrow> 0)"

definition no_roles_update :: "initiative \<Rightarrow> initiative" where
  "no_roles_update init =
     init\<lparr> out_fteImpact := Some 0, out_annualSaving := Some 0, out_effectiveImpact := Some 0,
           out_contributionPct := Some 0, out_poolConsumed := Some 0,
           out_poolCapped := Some False \<rparr>"

text \<open>The location branch: a cost saving only, and nothing for the role ledgers.\<close>

definition location_step ::
  "data \<Rightarrow> cascade_state \<Rightarrow> nat \<Rightarrow> initiative \<Rightarrow> gross \<Rightarrow> cascade_state" where
  "location_step d st i init g =
     (let hz = horizon (data_params d);
          start_m = max 1 (startMonth init);
          benefit_end = benefit_end_of init;
          ramp_months = ramp init;
          loc_yearly_factors = compute_yearly_factors start_m benefit_end hz ramp_months;
          gross_migrated0 = gross_fte_migrated g;
          gross_saving0 = gross_saving g;
          (gross_saving1, gross_migrated1, pool_capped, ps, ws) =
            (if cs_pools st \<noteq> [] \<and> ''cost_reduction'' \<in> set (map fst (cs_pools st))
                \<and> 0 < gross_migrated0
             then (case consume_pool (cs_pools st) ''cost_reduction'' gross_migrated0 0 0 of
                     (c, ps', w) \<Rightarrow>
                       if consumed_fte c < gross_migrated0 \<and> 0 < gross_migrated0
                       then (gross_saving0 * (consumed_fte c / gross_migrated0), consumed_fte c,
                             capped c, ps', w)
                       else (gross_saving0, gross_migrated0, capped c, ps', w))
             else (gross_saving0, gross_migrated0, False, cs_pools st, []));
          init' = init\<lparr> out_fteImpact := Some 0,
                        out_annualSaving := Some (round0 gross_saving1),
                        out_effectiveImpact := Some 0,
                        out_poolConsumed := Some (round_nd 1 gross_migrated1),
                        out_poolCapped := Some pool_capped,
                        out_grossFTE := Some 0,
                        out_grossSaving := Some (gross_saving g),
                        out_rampPcts := Some (take hz loc_yearly_factors),
                        out_yearlyFactors := Some (take hz loc_yearly_factors),
                        out_startMonth := Some start_m,
                        out_endMonth := Some (if 0 < benefit_end then benefit_end else int hz * 12),
                        out_rampCompleteMonth := Some (of_int start_m + ramp_months),
                        out_linkedQueues := Some (linked_queues init (data_queues d)),
                        out_capApplied := Some pool_capped \<rparr>
      in st\<lparr> cs_pools := ps,
              cs_inits := (cs_inits st)[i := init'],
              audit_trail := audit_trail st @
                [\<lparr> audit_id = init_id init, audit_lever = lever init, audit_gross_fte = 0,
                    audit_net_fte = 0, audit_saving = round0 gross_saving1,
                    audit_pool_capped = pool_capped \<rparr>],
              warnings := warnings st @ ws \<rparr>)"

text \<open>
  The safety caps of step 4c: the type cap, the absolute cap, and the head-room that the
  affected roles have left under the per-role maximum.
\<close>

definition role_avail :: "(string \<Rightarrow> real) \<Rightarrow> role_rec list \<Rightarrow> real" where
  "role_avail cum affected =
     sum_list (map (\<lambda>r. max 0 (headcount r * PER_ROLE_MAX_REDUCTION - cum (role r))) affected)"

definition capped_reduction ::
  "string \<Rightarrow> real \<Rightarrow> real \<Rightarrow> (string \<Rightarrow> real) \<Rightarrow> role_rec list \<Rightarrow> real" where
  "capped_reduction lv net_fte tot_aff cum affected =
     (let type_cap = type_cap_factor lv * tot_aff;
          abs_cap = ABSOLUTE_SINGLE_INIT_CAP * tot_aff;
          red0 = min (min net_fte type_cap) abs_cap;
          red1 = min red0 (role_avail cum affected)
      in max 0 red1)"

definition update_role_cum ::
  "(string \<Rightarrow> real) \<Rightarrow> role_rec list \<Rightarrow> real \<Rightarrow> real \<Rightarrow> (string \<Rightarrow> real)" where
  "update_role_cum cum affected red tot_aff =
     fold (\<lambda>r c. c(role r := c (role r) + red * (headcount r / tot_aff))) affected cum"

definition update_role_impact ::
  "(string \<Rightarrow> real list) \<Rightarrow> role_rec list \<Rightarrow> real \<Rightarrow> real \<Rightarrow> real list \<Rightarrow> nat
     \<Rightarrow> (string \<Rightarrow> real list)" where
  "update_role_impact ri affected red tot_aff yearly_factors hz =
     fold (\<lambda>yr ri1.
             let factor = (if yr < length yearly_factors then yearly_factors ! yr else 0)
             in fold (\<lambda>r ri2.
                        ri2(role r := (ri2 (role r))
                               [yr := ri2 (role r) ! yr + red * factor * (headcount r / tot_aff)]))
                     affected ri1)
          [0..<hz] ri"

definition netting_step ::
  "data \<Rightarrow> cascade_state \<Rightarrow> nat \<Rightarrow> initiative \<Rightarrow> gross \<Rightarrow> cascade_state" where
  "netting_step d st i init g =
     (let hz = horizon (data_params d);
          affected = affected_roles init (data_roles d);
          tot_aff = sum_list (map headcount affected);
          raw_fte = gross_fte g
      in case consume_pool (cs_pools st) (lever init) raw_fte (gross_contacts g) (gross_seconds g) of
           (c, ps, ws) \<Rightarrow>
             (let net_fte = consumed_fte c;
                  pool_capped = capped c;
                  red = capped_reduction (lever init) net_fte tot_aff (role_cum st) affected;
                  start_m = max 1 (startMonth init);
                  benefit_end = benefit_end_of init;
                  ramp_months = ramp init;
                  yearly_factors = compute_yearly_factors start_m benefit_end hz ramp_months;
                  wtd = sum_list (map (\<lambda>r. headcount r * costPerFTE r) affected) / max tot_aff 1;
                  cap_applied = (red < raw_fte * (95/100));
                  init' = init\<lparr> out_fteImpact := Some (round_nd 1 red),
                                out_annualSaving := Some (round_nd 0 (red * wtd)),
                                out_effectiveImpact := Some (round_nd 4 (red / max tot_aff 1)),
                                out_poolConsumed := Some (round_nd 1 red),
                                out_poolCapped := Some pool_capped,
                                out_grossFTE := Some (round_nd 1 raw_fte),
                                out_grossSaving := Some (round_nd 0 (raw_fte * wtd)),
                                out_rampPcts := Some (take hz yearly_factors),
                                out_yearlyFactors := Some (take hz yearly_factors),
                                out_startMonth := Some start_m,
                                out_endMonth :=
                                  Some (if 0 < benefit_end then benefit_end else int hz * 12),
                                out_rampCompleteMonth := Some (of_int start_m + ramp_months),
                                out_linkedQueues := Some (linked_queues init (data_queues d)),
                                out_capApplied := Some cap_applied \<rparr>
              in st\<lparr> cs_pools := ps,
                      role_cum := update_role_cum (role_cum st) affected red tot_aff,
                      role_impact_yearly :=
                        update_role_impact (role_impact_yearly st) affected red tot_aff
                          yearly_factors hz,
                      cs_inits := (cs_inits st)[i := init'],
                      audit_trail := audit_trail st @
                        [\<lparr> audit_id = init_id init, audit_lever = lever init,
                            audit_gross_fte = round_nd 1 raw_fte,
                            audit_net_fte = round_nd 1 red,
                            audit_saving = round0 (red * wtd),
                            audit_pool_capped = pool_capped \<rparr>],
                      warnings := warnings st @ ws \<rparr>))"

text \<open>
  One iteration of the cascade loop, for the initiative at position \<open>i\<close>, with the
  annualized queues of step 2b.
\<close>

definition cascade_step ::
  "data \<Rightarrow> enriched_queue list \<Rightarrow> nat \<Rightarrow> cascade_state \<Rightarrow> cascade_state" where
  "cascade_step d annual_queues i st =
     (let init = cs_inits st ! i;
          affected = affected_roles init (data_roles d);
          tot_aff = sum_list (map headcount affected)
      in if tot_aff = 0 then st\<lparr> cs_inits := (cs_inits st)[i := no_roles_update init] \<rparr>
         else
           (let g = compute_gross_impact init annual_queues (data_roles d) (data_params d)
            in if is_location g then location_step d st i init g
               else netting_step d st i init g))"

definition sorted_inits :: "initiative list \<Rightarrow> nat list" where
  "sorted_inits inits =
     sort_key (\<lambda>i. sort_key_of (inits ! i)) (filter (\<lambda>i. enabled (inits ! i)) [0..<length inits])"

definition annual_queues_of :: "data \<Rightarrow> enriched_queue list" where
  "annual_queues_of d =
     (let enriched_queues = enrich_intents (data_queues d);
          annualization = snd (compute_pools enriched_queues (data_roles d) (data_params d))
      in map (\<lambda>q. q\<lparr> volume := round0 (volume q * annualization) \<rparr>) enriched_queues)"

definition initial_state :: "data \<Rightarrow> initiative list \<Rightarrow> cascade_state" where
  "initial_state d inits =
     \<lparr> cs_pools = fst (compute_pools (enrich_intents (data_queues d)) (data_roles d)
                             (data_params d)),
       role_cum = (\<lambda>_. 0),
       role_impact_yearly = (\<lambda>_. replicate (horizon (data_params d)) 0),
       cs_inits = inits,
       audit_trail = [],
       warnings = [] \<rparr>"

text \<open>Steps 1 to 4 of \<^verbatim>\<open>run_waterfall\<close>: the state when the cascade loop ends.\<close>

definition cascade :: "data \<Rightarrow> initiative list \<Rightarrow> cascade_state" where
  "cascade d inits =
     fold (cascade_step d (annual_queues_of d)) (sorted_inits inits) (initial_state d inits)"

text \<open>
  The state after the first \<open>n\<close> initiatives of the processing order: every point of
  the cascade is one of these.
\<close>

definition cascade_upto :: "data \<Rightarrow> initiative list \<Rightarrow> nat \<Rightarrow> cascade_state" where
  "cascade_upto d inits n =
     fold (cascade_step d (annual_queues_of d)) (take n (sorted_inits inits))
          (initial_state d inits)"

section \<open>Notions used in the statements\<close>

text \<open>The seven lever names that \<^verbatim>\<open>consume_pool\<close> maps to a pool key.\<close>

definition recognized_levers :: "string list" where
  "recognized_levers =
     [''deflection'', ''aht_reduction'', ''escalation_reduction'', ''transfer_reduction'',
      ''repeat_reduction'', ''cost_reduction'', ''shrinkage_reduction'']"

text \<open>A pools dictionary that holds a location pool of 10 FTE, as yet unused.\<close>

definition location_only_pools :: pools where
  "location_only_pools =
     [(''location'',
        \<lparr> ceiling_fte = 10, remaining_fte = 10, ceiling_saving = 1000,
          remaining_contacts = None, remaining_seconds = None,
          remaining_saving = Some 1000 \<rparr>)]"


section \<open>Internal rate of return (waterfall.py)\<close>

datatype py_error = ZeroDivisionError | OverflowError

text \<open>
  The estimator raises nowhere but in its powers and divisions, and there the float range
  decides: \<^verbatim>\<open>x ** n\<close> raises OverflowError when the power is too large for a float
  (it would round to \<open>2^1024\<close>) and is 0.0 when the power is too small (at most half the
  least positive float, \<open>2^-1074\<close>), and a division by 0.0 raises ZeroDivisionError.
  These cases are modelled; inside the float range the value of a power, a quotient and a
  sum is the exact real.
\<close>

definition float_overflow_bound :: real where
  "float_overflow_bound = 2 ^ 1024 - 2 ^ 970"

definition float_underflow_bound :: real where
  "float_underflow_bound = 1 / 2 ^ 1075"

definition float_pow :: "real \<Rightarrow> nat \<Rightarrow> py_error + real" where
  "float_pow b n =
     (if float_overflow_bound \<le> \<bar>b ^ n\<bar> then Inl OverflowError
      else if \<bar>b ^ n\<bar> \<le> float_underflow_bound then Inr 0
      else Inr (b ^ n))"

definition float_div :: "real \<Rightarrow> real \<Rightarrow> py_error + real" where
  "float_div x y = (if y = 0 then Inl ZeroDivisionError else Inr (x / y))"

text \<open>\<^verbatim>\<open>sum\<close> over a generator: the terms are computed in order and the first error ends it.\<close>

fun sum_err :: "(py_error + real) list \<Rightarrow> py_error + real" where
  "sum_err [] = Inr 0"
| "sum_err (Inl e # xs) = Inl e"
| "sum_err (Inr x # xs) = (case sum_err xs of Inl e \<Rightarrow> Inl e | Inr s \<Rightarrow> Inr (x + s))"

definition npv_at :: "real \<Rightarrow> real list \<Rightarrow> py_error + real" where
  "npv_at rate cashflows =
     sum_err (map (\<lambda>(t, cf). case float_pow (1 + rate) t of
                                  Inl e \<Rightarrow> Inl e
                                | Inr pw \<Rightarrow> float_div cf pw)
                  (enumerate 0 cashflows))"

definition dnpv_at :: "real \<Rightarrow> real list \<Rightarrow> py_error + real" where
  "dnpv_at rate cashflows =
     sum_err (map (\<lambda>(t, cf). case float_pow (1 + rate) (t + 1) of
                                  Inl e \<Rightarrow> Inl e
                                | Inr pw \<Rightarrow> float_div (- real t * cf) pw)
                  (enumerate 0 cashflows))"

text \<open>
  The body of the Newton loop: from the current rate to the rate after this iteration,
  and whether the loop breaks here.
\<close>

definition irr_step :: "real \<Rightarrow> real list \<Rightarrow> py_error + real \<times> bool" where
  "irr_step rate cashflows =
     (case npv_at rate cashflows of
        Inl e \<Rightarrow> Inl e
      | Inr npv \<Rightarrow>
          (case dnpv_at rate cashflows of
             Inl e \<Rightarrow> Inl e
           | Inr dnpv \<Rightarrow>
               if \<bar>dnpv\<bar> < 1 / 10 ^ 10 then Inr (rate, True)
               else Inr (max (- (1/2)) (min 10 (rate - npv / dnpv)), \<bar>npv\<bar> < 1)))"

text \<open>The loop, with the iterations that are left as the first argument.\<close>

fun irr_loop :: "nat \<Rightarrow> real \<Rightarrow> real list \<Rightarrow> py_error + real" where
  "irr_loop 0 rate cashflows = Inr rate"
| "irr_loop (Suc n) rate cashflows =
     (case irr_step rate cashflows of
        Inl e \<Rightarrow> Inl e
      | Inr (rate', stop) \<Rightarrow> if stop then Inr rate' else irr_loop n rate' cashflows)"

definition estimate_irr_from :: "real list \<Rightarrow> real \<Rightarrow> nat \<Rightarrow> py_error + real" where
  "estimate_irr_from cashflows guess max_iter =
     (if cashflows = [] \<or> list_all (\<lambda>cf. cf = 0) cashflows then Inr 0
      else (case irr_loop max_iter guess cashflows of
              Inl e \<Rightarrow> Inl e
            | Inr rate \<Rightarrow> Inr (round_nd 1 (rate * 100))))"

text \<open>The call with the default arguments \<^verbatim>\<open>guess=0.10\<close> and \<^verbatim>\<open>max_iter=100\<close>.\<close>

definition estimate_irr :: "real list \<Rightarrow> py_error + real" where
  "estimate_irr cashflows = estimate_irr_from cashflows (10/100) 100"


text \<open>
  Sample data for the closed statements below: one Voice queue of 1,000,000 contacts a
  month, two agent roles of 100 heads each, and the default parameters.
\<close>

definition sample_queue :: queue where
  "sample_queue =
     \<lparr> intent = ''Balance enquiry'', channel = ''Voice'', volume = 1000000, aht = 5, acw = 1,
       fcr = 80/100, transfer = 10/100, escalation = 5/100, repeat = 0, complexity = 20/100,
       preventable_transfer_pct = None \<rparr>"

definition sample_roles :: "role_rec list" where
  "sample_roles =
     [\<lparr> role = ''Agent L1'', headcount = 100, costPerFTE = 55000 \<rparr>,
      \<lparr> role = ''Agent L2 / Specialist'', headcount = 100, costPerFTE = 68000 \<rparr>]"

definition sample_params :: params where
  "sample_params =
     \<lparr> horizon = 3, discountRate = 10/100, wageInflation = 3/100, shrinkage = 30/100,
       targetShrinkage = 22/100, grossHoursPerYear = 2080, volumeAnnualizationFactor = 12,
       locationArbitrage = 35/100, other_params = Map.empty \<rparr>"

definition sample_data :: data where
  "sample_data =
     \<lparr> data_roles = sample_roles, data_queues = [sample_queue], data_params = sample_params \<rparr>"

text \<open>An initiative with the given inputs and none of the keys that the cascade writes.\<close>

definition new_initiative ::
  "string \<Rightarrow> string \<Rightarrow> string \<Rightarrow> real \<Rightarrow> real \<Rightarrow> string list \<Rightarrow> string list \<Rightarrow> real
     \<Rightarrow> initiative" where
  "new_initiative i ly lv imp adopt chs rls score =
     \<lparr> init_id = i, layer = ly, lever = lv, impact = imp, adoption = adopt, channels = chs,
       roles = rls, ramp = 6, startMonth = 1, benefitEndMonth = None, enabled = True,
       matchScore = score,
       out_fteImpact = None, out_annualSaving = None, out_effectiveImpact = None,
       out_contributionPct = None, out_poolConsumed = None, out_poolCapped = None,
       out_grossFTE = None, out_grossSaving = None, out_rampPcts = None,
       out_yearlyFactors = None, out_startMonth = None, out_endMonth = None,
       out_rampCompleteMonth = None, out_linkedQueues = None, out_capApplied = None \<rparr>"

text \<open>
  The gross impact of a transfer initiative as the specification words it: the
  preventable transfer volume that enrichment classified (transfer rate times the
  \<^verbatim>\<open>preventable_share\<close> of the queue's \<^verbatim>\<open>transfer_class\<close>), times impact and
  adoption, at 180 seconds per prevented transfer, in hours and then FTE.
\<close>

definition gross_transfer_fte_spec :: "enriched_queue list \<Rightarrow> real \<Rightarrow> real \<Rightarrow> real \<Rightarrow> real" where
  "gross_transfer_fte_spec queues net_hours imp adopt =
     (let total_prevented =
            sum_list (map (\<lambda>q. volume q * transfer q * preventable_share (transfer_class q)
                                  * imp * adopt) queues);
          hours_saved = total_prevented * 180 / 3600
      in round_nd 1 (hours_saved / max net_hours 1))"

definition transfer_initiative :: initiative where
  "transfer_initiative =
     new_initiative ''TR01'' ''Operating Model'' ''transfer_reduction'' (20/100) (80/100)
       [''Voice''] [''Agent L1''] 50"


text \<open>An initiative whose only channel, Fax, is the channel of no queue of the sample data.\<close>

definition fax_initiative :: initiative where
  "fax_initiative =
     new_initiative ''FX01'' ''AI & Automation'' ''aht_reduction'' (20/100) (80/100)
       [''Fax''] [''Agent L1''] 50"


text \<open>
  Three deflection initiatives on the sample data, in processing order: two that target
  the role Agent L1 alone, and one that targets both agent roles.
\<close>

definition deflection_initiatives :: "initiative list" where
  "deflection_initiatives =
     [new_initiative ''D1'' ''AI & Automation'' ''deflection'' (30/100) (80/100)
        [''Voice''] [''Agent L1''] 90,
      new_initiative ''D2'' ''AI & Automation'' ''deflection'' (30/100) (80/100)
        [''Voice''] [''Agent L1''] 80,
      new_initiative ''D3'' ''AI & Automation'' ''deflection'' (30/100) (80/100)
        [''Voice''] [''Agent L1'', ''Agent L2 / Specialist''] 70]"

text \<open>The sample data with a single role of one head, and a deflection initiative on it.\<close>

definition one_head_data :: data where
  "one_head_data =
     sample_data\<lparr> data_roles :=
       [\<lparr> role = ''Knowledge Manager'', headcount = 1, costPerFTE = 70000 \<rparr>] \<rparr>"

definition one_head_initiative :: initiative where
  "one_head_initiative =
     new_initiative ''K1'' ''AI & Automation'' ''deflection'' (30/100) (80/100)
       [''Voice''] [''Knowledge Manager''] 90"


text \<open>The keys of an initiative that the cascade reads and never writes.\<close>

definition inputs_of ::
  "initiative \<Rightarrow> string \<times> string \<times> string \<times> real \<times> real \<times> string list \<times> string list \<times> real
     \<times> int \<times> int option \<times> bool \<times> real" where
  "inputs_of x =
     (init_id x, layer x, lever x, impact x, adoption x, channels x, roles x, ramp x,
      startMonth x, benefitEndMonth x, enabled x, matchScore x)"

text \<open>
  What one iteration of the cascade loop does to the pools and to \<^verbatim>\<open>role_cum\<close>, as a
  function of the initiative it processes; \<open>step_core_eq\<close> shows that this is the
  projection of \<open>cascade_step\<close>. \<open>step_red\<close> is the value of the variable
  \<^verbatim>\<open>red\<close> of step 4c in that iteration.
\<close>

definition step_red ::
  "data \<Rightarrow> enriched_queue list \<Rightarrow> initiative \<Rightarrow> pools \<times> (string \<Rightarrow> real) \<Rightarrow> real" where
  "step_red d aq init pc =
     (let affected = affected_roles init (data_roles d);
          tot_aff = sum_list (map headcount affected);
          g = compute_gross_impact init aq (data_roles d) (data_params d);
          c = fst (consume_pool (fst pc) (lever init) (gross_fte g) (gross_contacts g)
                     (gross_seconds g))
      in capped_reduction (lever init) (consumed_fte c) tot_aff (snd pc) affected)"

definition step_core ::
  "data \<Rightarrow> enriched_queue list \<Rightarrow> initiative \<Rightarrow> pools \<times> (string \<Rightarrow> real)
     \<Rightarrow> pools \<times> (string \<Rightarrow> real)" where
  "step_core d aq init pc =
     (let affected = affected_roles init (data_roles d);
          tot_aff = sum_list (map headcount affected);
          g = compute_gross_impact init aq (data_roles d) (data_params d)
      in if tot_aff = 0 then pc
         else if is_location g then
           (if fst pc \<noteq> [] \<and> ''cost_reduction'' \<in> set (map fst (fst pc))
               \<and> 0 < gross_fte_migrated g
            then fst (snd (consume_pool (fst pc) ''cost_reduction'' (gross_fte_migrated g) 0 0))
            else fst pc,
            snd pc)
         else
           (fst (snd (consume_pool (fst pc) (lever init) (gross_fte g) (gross_contacts g)
                        (gross_seconds g))),
            update_role_cum (snd pc) affected (step_red d aq init pc) tot_aff))"


text \<open>The sample data with its queue on the Chat channel, and a location initiative on it.\<close>

definition chat_data :: data where
  "chat_data = sample_data\<lparr> data_queues := [sample_queue\<lparr> channel := ''Chat'' \<rparr>] \<rparr>"

definition location_initiative :: initiative where
  "location_initiative =
     new_initiative ''LS02'' ''Location Strategy'' ''cost_reduction'' (40/100) (75/100)
       [''Chat''] [''Agent L1''] 50"


text \<open>
  A pool is in order when its remaining FTE lies between 0 and its ceiling and is a
  multiple of 0.1, as every value that \<^verbatim>\<open>round(x, 1)\<close> returns.
\<close>

definition pool_ok :: "pool \<Rightarrow> bool" where
  "pool_ok p =
     (0 \<le> remaining_fte p \<and> remaining_fte p \<le> ceiling_fte p \<and> tenth_multiple (remaining_fte p))"

text \<open>
  The net FTE that the audit trail records for the initiatives whose lever consumes from
  the pool under key \<open>k\<close>.
\<close>

definition net_on_pool :: "audit_entry list \<Rightarrow> string \<Rightarrow> real" where
  "net_on_pool tr k =
     sum_list (map audit_net_fte (filter (\<lambda>a. pool_key_of (audit_lever a) = k) tr))"


text \<open>
  The invariant of the cascade on pools and audit trail: every pool is in order, what the
  audit trail has netted on a pool and what remains of it do not exceed its ceiling, and
  no net FTE is negative.
\<close>

definition pools_inv :: "cascade_state \<Rightarrow> bool" where
  "pools_inv st =
     ((\<forall>k p. map_of (cs_pools st) k = Some p \<longrightarrow>
         pool_ok p \<and> net_on_pool (audit_trail st) k + remaining_fte p \<le> ceiling_fte p) \<and>
      (\<forall>a\<in>set (audit_trail st). 0 \<le> audit_net_fte a))"

text \<open>From one state to a later one no pool is lost and none has grown.\<close>

definition pools_shrink :: "cascade_state \<Rightarrow> cascade_state \<Rightarrow> bool" where
  "pools_shrink st st' =
     (\<forall>k p. map_of (cs_pools st) k = Some p \<longrightarrow>
        (\<exists>p'. map_of (cs_pools st') k = Some p' \<and> remaining_fte p' \<le> remaining_fte p \<and>
              ceiling_fte p' = ceiling_fte p))"

section \<open>Rounding lemmas\<close>

lemma py_round_of_int: "py_round (of_int k) = k"
  by (simp add: py_round_def)

lemma py_round_lower: "x - 1/2 \<le> of_int (py_round x)"
  unfolding py_round_def Let_def by (auto; linarith)

lemma py_round_upper: "of_int (py_round x) \<le> x + 1/2"
  unfolding py_round_def Let_def by (auto; linarith)

lemma py_round_mono: "x \<le> y \<Longrightarrow> py_round x \<le> py_round y"
proof -
  assume xy: "x \<le> y"
  have fl: "\<lfloor>x\<rfloor> \<le> \<lfloor>y\<rfloor>" using xy by (rule floor_mono)
  show ?thesis
  proof (cases "\<lfloor>x\<rfloor> = \<lfloor>y\<rfloor>")
    case True
    then show ?thesis using xy unfolding py_round_def Let_def by auto
  next
    case False
    then have "\<lfloor>x\<rfloor> + 1 \<le> \<lfloor>y\<rfloor>" using fl by simp
    moreover have "py_round x \<le> \<lfloor>x\<rfloor> + 1" unfolding py_round_def Let_def by auto
    moreover have "\<lfloor>y\<rfloor> \<le> py_round y" unfolding py_round_def Let_def by auto
    ultimately show ?thesis by linarith
  qed
qed

lemma round_nd_mono: "x \<le> y \<Longrightarrow> round_nd n x \<le> round_nd n y"
  unfolding round_nd_def by (simp add: py_round_mono divide_right_mono)

lemma round_nd_idem: "round_nd n (round_nd n x) = round_nd n x"
  unfolding round_nd_def by (simp add: py_round_of_int)

lemma round_nd_zero: "round_nd n 0 = 0"
  unfolding round_nd_def using py_round_of_int[of 0] by simp

lemma round_nd_nonneg: "0 \<le> x \<Longrightarrow> 0 \<le> round_nd n x"
  using round_nd_mono[of 0 x n] by (simp add: round_nd_zero)

lemma round0_zero: "round0 0 = 0"
  unfolding round0_def using py_round_of_int[of 0] by simp

lemma round0_nonneg: "0 \<le> x \<Longrightarrow> 0 \<le> round0 x"
  unfolding round0_def using py_round_mono[of 0 x] py_round_of_int[of 0] by simp

lemma round_nd_1_lower: "x - 1/20 \<le> round_nd 1 x"
  using py_round_lower[of "x * 10"] unfolding round_nd_def by (simp add: field_simps)

lemma round_nd_1_upper: "round_nd 1 x \<le> x + 1/20"
  using py_round_upper[of "x * 10"] unfolding round_nd_def by (simp add: field_simps)

lemma tenth_multiple_iff: "tenth_multiple x \<longleftrightarrow> (\<exists>k::int. x = of_int k / 10)"
proof
  assume "tenth_multiple x"
  then have "x = of_int (py_round (x * 10)) / 10" by (simp add: tenth_multiple_def round_nd_def)
  then show "\<exists>k::int. x = of_int k / 10" by blast
next
  assume "\<exists>k::int. x = of_int k / 10"
  then obtain k :: int where "x = of_int k / 10" by blast
  then show "tenth_multiple x" by (simp add: tenth_multiple_def round_nd_def py_round_of_int)
qed

lemma tenth_multiple_round: "tenth_multiple (round_nd 1 x)"
  by (simp add: tenth_multiple_def round_nd_idem)

lemma tenth_multiple_zero: "tenth_multiple 0"
  by (simp add: tenth_multiple_def round_nd_zero)

lemma tenth_multiple_diff: "tenth_multiple x \<Longrightarrow> tenth_multiple y \<Longrightarrow> tenth_multiple (x - y)"
proof -
  assume "tenth_multiple x" "tenth_multiple y"
  then obtain k l :: int where "x = of_int k / 10" "y = of_int l / 10"
    by (auto simp: tenth_multiple_iff)
  then have "x - y = of_int (k - l) / 10" by (simp add: diff_divide_distrib)
  then show ?thesis unfolding tenth_multiple_iff by blast
qed

lemma tenth_multiple_min: "tenth_multiple x \<Longrightarrow> tenth_multiple y \<Longrightarrow> tenth_multiple (min x y)"
  by (simp add: min_def)

lemma tenth_multiple_fix: "tenth_multiple x \<Longrightarrow> round_nd 1 x = x"
  by (simp add: tenth_multiple_def)


lemma round_nd_of_int: "round_nd n (of_int k) = of_int k"
proof -
  have "of_int k * (10::real) ^ n = of_int (k * 10 ^ n)" by simp
  then have "py_round (of_int k * 10 ^ n) = k * 10 ^ n" by (simp only: py_round_of_int)
  then show ?thesis by (simp add: round_nd_def)
qed

lemma round_nd_numeral: "round_nd n (numeral w) = numeral w"
  using round_nd_of_int[of n "numeral w"] by simp

lemma round0_numeral: "round0 (numeral w) = numeral w"
  using py_round_of_int[of "numeral w"] by (simp add: round0_def)

section \<open>Unknown levers in \<^verbatim>\<open>consume_pool\<close>\<close>

lemma pool_key_of_unrecognized:
  "lv \<notin> set recognized_levers \<Longrightarrow> pool_key_of lv = lv"
  by (simp add: pool_key_of_def lever_pool_map_def recognized_levers_def)

text \<open>
  Claim C5, as amended. A lever string that is none of the seven mapped lever names is its
  own pool key. If the pools dictionary has no pool under that key, \<^verbatim>\<open>consume_pool\<close>
  returns \<open>consumed_fte = 0\<close> with the unknown-lever flag, logs one warning and hands
  back the pools dictionary as it was; no arithmetic is done, so nothing can raise.
\<close>

theorem consume_pool_unknown_lever:
  assumes "lv \<notin> set recognized_levers" and "map_of ps lv = None"
  shows "consume_pool ps lv amount_fte amount_contacts amount_seconds =
           (\<lparr> consumed_fte = 0, consumed_contacts = 0, consumed_seconds = 0, capped = True,
               pool_exhausted = False, unknown_lever = True \<rparr>,
            ps, [''consume_pool: unknown lever '' @ lv])"
  using assms by (simp add: consume_pool_def pool_key_of_unrecognized)

theorem consume_pool_unknown_lever_witness:
  "''loyalty'' \<notin> set recognized_levers \<and> map_of location_only_pools ''loyalty'' = None \<and>
   consumed_fte (fst (consume_pool location_only_pools ''loyalty'' 3 0 0)) = 0 \<and>
   fst (snd (consume_pool location_only_pools ''loyalty'' 3 0 0)) = location_only_pools \<and>
   snd (snd (consume_pool location_only_pools ''loyalty'' 3 0 0)) = [''consume_pool: unknown lever loyalty'']"
proof -
  have a: "''loyalty'' \<notin> set recognized_levers" by (simp add: recognized_levers_def)
  have b: "map_of location_only_pools ''loyalty'' = None" by (simp add: location_only_pools_def)
  show ?thesis
    using a b consume_pool_unknown_lever[of "''loyalty''" location_only_pools 3 0 0] by simp
qed

text \<open>
  Claim C5 as stated fails at the lever string \<open>location\<close>: it is none of the seven
  lever names, yet it is the key of the location pool, so the call consumes 3 FTE from
  that pool, changes it and logs nothing.
\<close>

theorem consume_pool_location_counterexample:
  "''location'' \<notin> set recognized_levers \<and>
   consumed_fte (fst (consume_pool location_only_pools ''location'' 3 0 0)) = 3 \<and>
   fst (snd (consume_pool location_only_pools ''location'' 3 0 0)) \<noteq> location_only_pools \<and>
   map (remaining_fte \<circ> snd) (fst (snd (consume_pool location_only_pools ''location'' 3 0 0))) = [7] \<and>
   snd (snd (consume_pool location_only_pools ''location'' 3 0 0)) = []"
proof -
  have k: "pool_key_of ''location'' = ''location''"
    by (simp add: pool_key_of_def lever_pool_map_def)
  have c: "consume_pool location_only_pools ''location'' 3 0 0 =
        (\<lparr> consumed_fte = 3, consumed_contacts = 0, consumed_seconds = 0, capped = False,
            pool_exhausted = False, unknown_lever = False \<rparr>,
         [(''location'',
            \<lparr> ceiling_fte = 10, remaining_fte = 7, ceiling_saving = 1000,
              remaining_contacts = None, remaining_seconds = None,
              remaining_saving = Some 700 \<rparr>)], [])"
    by (simp add: consume_pool_def k location_only_pools_def deduct_pool_def Let_def
          round_nd_numeral round0_numeral)
  show ?thesis using c by (simp add: recognized_levers_def location_only_pools_def)
qed

section \<open>The S-curve ramp\<close>

lemma s_curve_ramp_range: "0 \<le> s_curve_ramp t R \<and> s_curve_ramp t R \<le> 1"
  by (simp add: s_curve_ramp_def Let_def)

lemma s_curve_ramp_mid_mono:
  assumes R: "0 < (R::real)" and t: "(t1::real) \<le> t2"
  shows "max 0 (min 1 ((1 / (1 + exp (- (6 / R) * (t1 - R * (45/100)))) - F) / max D (1/1000)))
        \<le> max 0 (min 1 ((1 / (1 + exp (- (6 / R) * (t2 - R * (45/100)))) - F) / max D (1/1000)))"
proof -
  have k: "0 < 6 / R" using R by simp
  have "(6 / R) * (t1 - R * (45/100)) \<le> (6 / R) * (t2 - R * (45/100))"
    using k t by (intro mult_left_mono) auto
  then have "- (6 / R) * (t2 - R * (45/100)) \<le> - (6 / R) * (t1 - R * (45/100))"
    by linarith
  then have e: "exp (- (6 / R) * (t2 - R * (45/100))) \<le> exp (- (6 / R) * (t1 - R * (45/100)))"
    by simp
  have p1: "0 < 1 + exp (- (6 / R) * (t2 - R * (45/100)))"
    by (simp add: add_pos_pos)
  have "1 / (1 + exp (- (6 / R) * (t1 - R * (45/100))))
        \<le> 1 / (1 + exp (- (6 / R) * (t2 - R * (45/100))))"
    using e p1 by (intro divide_left_mono) (auto simp: add_pos_pos)
  then have "(1 / (1 + exp (- (6 / R) * (t1 - R * (45/100)))) - F) / max D (1/1000)
        \<le> (1 / (1 + exp (- (6 / R) * (t2 - R * (45/100)))) - F) / max D (1/1000)"
    by (intro divide_right_mono) auto
  then show ?thesis by auto
qed

lemma s_curve_ramp_mono:
  assumes R: "0 < (R::real)" and t: "(t1::real) \<le> t2"
  shows "s_curve_ramp t1 R \<le> s_curve_ramp t2 R"
proof (cases "t1 \<le> 0")
  case True
  then have "s_curve_ramp t1 R = 0" by (simp add: s_curve_ramp_def)
  then show ?thesis using s_curve_ramp_range[of t2 R] by simp
next
  case t1pos: False
  show ?thesis
  proof (cases "R \<le> t2")
    case True
    then have "s_curve_ramp t2 R = 1" using R by (simp add: s_curve_ramp_def)
    then show ?thesis using s_curve_ramp_range[of t1 R] by simp
  next
    case False
    then have "\<not> t2 \<le> 0" "\<not> R \<le> t1" using t1pos t by auto
    then show ?thesis
      using t1pos False s_curve_ramp_mid_mono[OF R t]
      by (simp add: s_curve_ramp_def math_exp_def Let_def)
  qed
qed

text \<open>
  Claim C7. For every ramp duration \<open>ramp_months > 0\<close> the ramp is 0 at month 0, lies
  in [0.93, 1.0] at month \<open>ramp_months\<close> (the code returns exactly 1 there), and is
  monotonically non-decreasing in the month. The logistic curve is taken over the reals,
  with the exact exponential function.
\<close>

theorem s_curve_ramp_shape:
  assumes "0 < ramp_months"
  shows "s_curve_ramp 0 ramp_months = 0 \<and>
         93/100 \<le> s_curve_ramp ramp_months ramp_months \<and>
         s_curve_ramp ramp_months ramp_months \<le> 1 \<and>
         (\<forall>t1 t2. t1 \<le> t2 \<longrightarrow> s_curve_ramp t1 ramp_months \<le> s_curve_ramp t2 ramp_months)"
proof -
  have a: "s_curve_ramp 0 ramp_months = 0" by (simp add: s_curve_ramp_def)
  have b: "s_curve_ramp ramp_months ramp_months = 1" using assms by (simp add: s_curve_ramp_def)
  show ?thesis using a b s_curve_ramp_mono[OF assms] by simp
qed

theorem s_curve_ramp_shape_witness:
  "(0::real) < 12 \<and> s_curve_ramp 0 12 = 0 \<and> 93/100 \<le> s_curve_ramp 12 12 \<and>
   s_curve_ramp 12 12 \<le> 1 \<and> s_curve_ramp 3 12 \<le> s_curve_ramp 8 12"
proof -
  have h: "(0::real) < 12" by simp
  show ?thesis using s_curve_ramp_shape[OF h] by simp
qed

section \<open>Gross impact: target queues and transfers\<close>

lemma matching_queues_none:
  assumes "\<forall>q\<in>set enriched_queues. channel q \<notin> set (channels init)"
  shows "matching_queues init enriched_queues = enriched_queues"
proof -
  have "filter (\<lambda>q. channel q \<in> set (channels init)) enriched_queues = []"
    using assms by (simp add: filter_empty_conv)
  then show ?thesis by (simp add: matching_queues_def)
qed

lemma matching_queues_all:
  "matching_queues (init\<lparr>channels := map channel enriched_queues\<rparr>) enriched_queues = enriched_queues"
proof -
  have "filter (\<lambda>q. channel q \<in> set (map channel enriched_queues)) enriched_queues = enriched_queues"
    by (simp add: filter_id_conv)
  then show ?thesis by (simp add: matching_queues_def)
qed

lemma gross_dispatch_channels:
  "gross_dispatch (init\<lparr>channels := chs\<rparr>) mq rs p = gross_dispatch init mq rs p"
  by (simp add: gross_dispatch_def affected_roles_def cong: if_cong)

text \<open>
  Claim C10. When no queue of the dataset has one of the initiative's channels,
  \<^verbatim>\<open>compute_gross_impact\<close> takes every queue as a matching queue: its result is the
  lever formula over the whole queue list, the same as for an initiative that lists the
  channel of every queue, and not a zero impact.
\<close>

theorem compute_gross_impact_no_channel_match:
  assumes "\<forall>q\<in>set enriched_queues. channel q \<notin> set (channels init)"
  shows "matching_queues init enriched_queues = enriched_queues \<and>
         compute_gross_impact init enriched_queues rs p
           = gross_dispatch init enriched_queues rs p \<and>
         compute_gross_impact init enriched_queues rs p
           = compute_gross_impact (init\<lparr>channels := map channel enriched_queues\<rparr>)
               enriched_queues rs p"
  using matching_queues_none[OF assms]
  by (simp add: compute_gross_impact_def matching_queues_all gross_dispatch_channels)

section \<open>The IRR estimator\<close>

lemma float_pow_in_range:
  assumes "1/2 \<le> b" and "b \<le> 11" and "n \<le> 296"
  shows "float_pow b n = Inr (b ^ n)" and "b ^ n \<noteq> 0"
proof -
  have b0: "0 < b" using assms(1) by linarith
  have pos: "0 < b ^ n" using b0 by simp
  have up1: "b ^ n \<le> 11 ^ n" using assms(2) b0 by (intro power_mono) auto
  have up2: "(11::real) ^ n \<le> 11 ^ 296" using assms(3) by (intro power_increasing) auto
  have up3: "(11::real) ^ 296 < float_overflow_bound" by (simp add: float_overflow_bound_def)
  have up: "b ^ n < float_overflow_bound"
    using up1 up2 up3 by (rule le_less_trans[OF order_trans])
  have lo1: "(1/2) ^ n \<le> b ^ n" using assms(1) by (intro power_mono) auto
  have lo2: "((1::real)/2) ^ 296 \<le> (1/2) ^ n" using assms(3) by (intro power_decreasing) auto
  have lo3: "float_underflow_bound < (1/2) ^ 296"
    by (simp add: float_underflow_bound_def power_one_over)
  have lo: "float_underflow_bound < b ^ n"
    using lo3 order_trans[OF lo2 lo1] by (rule less_le_trans)
  have ab: "\<bar>b ^ n\<bar> = b ^ n" using pos by simp
  show "float_pow b n = Inr (b ^ n)" unfolding float_pow_def ab using up lo by simp
  show "b ^ n \<noteq> 0" using b0 by simp
qed

lemma sum_err_all_Inr:
  "\<forall>x\<in>set xs. \<exists>r. x = Inr r \<Longrightarrow> \<exists>s. sum_err xs = Inr s"
proof (induction xs)
  case Nil
  then show ?case by simp
next
  case (Cons x xs)
  then obtain r where "x = Inr r" by auto
  moreover obtain s where "sum_err xs = Inr s" using Cons by auto
  ultimately show ?case by simp
qed

lemma sum_err_overflow:
  "\<forall>x\<in>set xs. x = Inl OverflowError \<or> (\<exists>r. x = Inr r) \<Longrightarrow> Inl OverflowError \<in> set xs \<Longrightarrow>
   sum_err xs = Inl OverflowError"
proof (induction xs)
  case Nil
  then show ?case by simp
next
  case (Cons x xs)
  show ?case
  proof (cases x)
    case (Inl e)
    then show ?thesis using Cons.prems(1) by auto
  next
    case (Inr r)
    then have "Inl OverflowError \<in> set xs" using Cons.prems(2) by auto
    then have "sum_err xs = Inl OverflowError" using Cons by auto
    then show ?thesis using Inr by simp
  qed
qed

lemma enumerate_index_bound:
  "(t, cf) \<in> set (enumerate 0 cfs) \<Longrightarrow> t < length cfs"
  by (auto simp: in_set_enumerate_eq)

lemma npv_at_in_range:
  assumes "- (1/2) \<le> rate" and "rate \<le> 10" and "length cfs \<le> 296"
  shows "\<exists>v. npv_at rate cfs = Inr v"
proof -
  have "\<forall>x \<in> set (map (\<lambda>(t, cf). case float_pow (1 + rate) t of
                                  Inl e \<Rightarrow> Inl e
                                | Inr pw \<Rightarrow> float_div cf pw) (enumerate 0 cfs)). \<exists>r. x = Inr r"
  proof
    fix x
    assume "x \<in> set (map (\<lambda>(t, cf). case float_pow (1 + rate) t of
                                  Inl e \<Rightarrow> Inl e
                                | Inr pw \<Rightarrow> float_div cf pw) (enumerate 0 cfs))"
    then obtain t cf where tc: "(t, cf) \<in> set (enumerate 0 cfs)"
      and x: "x = (case float_pow (1 + rate) t of Inl e \<Rightarrow> Inl e | Inr pw \<Rightarrow> float_div cf pw)"
      by auto
    have "t \<le> 296" using enumerate_index_bound[OF tc] assms(3) by simp
    then have "float_pow (1 + rate) t = Inr ((1 + rate) ^ t)" "(1 + rate) ^ t \<noteq> 0"
      using float_pow_in_range[of "1 + rate" t] assms by auto
    then show "\<exists>r. x = Inr r" using x by (simp add: float_div_def)
  qed
  then show ?thesis unfolding npv_at_def by (rule sum_err_all_Inr)
qed

lemma dnpv_at_in_range:
  assumes "- (1/2) \<le> rate" and "rate \<le> 10" and "length cfs \<le> 296"
  shows "\<exists>v. dnpv_at rate cfs = Inr v"
proof -
  have "\<forall>x \<in> set (map (\<lambda>(t, cf). case float_pow (1 + rate) (t + 1) of
                                  Inl e \<Rightarrow> Inl e
                                | Inr pw \<Rightarrow> float_div (- real t * cf) pw) (enumerate 0 cfs)).
          \<exists>r. x = Inr r"
  proof
    fix x
    assume "x \<in> set (map (\<lambda>(t, cf). case float_pow (1 + rate) (t + 1) of
                                  Inl e \<Rightarrow> Inl e
                                | Inr pw \<Rightarrow> float_div (- real t * cf) pw) (enumerate 0 cfs))"
    then obtain t cf where tc: "(t, cf) \<in> set (enumerate 0 cfs)"
      and x: "x = (case float_pow (1 + rate) (t + 1) of Inl e \<Rightarrow> Inl e
                   | Inr pw \<Rightarrow> float_div (- real t * cf) pw)"
      by auto
    have "t + 1 \<le> 296" using enumerate_index_bound[OF tc] assms(3) by simp
    then have "float_pow (1 + rate) (t + 1) = Inr ((1 + rate) ^ (t + 1))"
      "(1 + rate) ^ (t + 1) \<noteq> 0"
      using float_pow_in_range[of "1 + rate" "t + 1"] assms by auto
    then show "\<exists>r. x = Inr r" using x by (simp add: float_div_def)
  qed
  then show ?thesis unfolding dnpv_at_def by (rule sum_err_all_Inr)
qed

lemma irr_step_clamped:
  "irr_step rate cfs = Inr (rate', stop) \<Longrightarrow> rate' = rate \<or> (- (1/2) \<le> rate' \<and> rate' \<le> 10)"
  by (auto simp: irr_step_def split: sum.splits if_splits)

lemma irr_step_in_range:
  assumes "- (1/2) \<le> rate" and "rate \<le> 10" and "length cfs \<le> 296"
  shows "\<exists>rate' stop. irr_step rate cfs = Inr (rate', stop) \<and> - (1/2) \<le> rate' \<and> rate' \<le> 10"
proof -
  obtain v where v: "npv_at rate cfs = Inr v" using npv_at_in_range[OF assms] by blast
  obtain w where w: "dnpv_at rate cfs = Inr w" using dnpv_at_in_range[OF assms] by blast
  show ?thesis using v w assms by (auto simp: irr_step_def)
qed

lemma irr_loop_in_range:
  "- (1/2) \<le> rate \<Longrightarrow> rate \<le> 10 \<Longrightarrow> length cfs \<le> 296 \<Longrightarrow>
   \<exists>r. irr_loop n rate cfs = Inr r \<and> - (1/2) \<le> r \<and> r \<le> 10"
proof (induction n arbitrary: rate)
  case 0
  then show ?case by simp
next
  case (Suc n)
  obtain rate' stop where s: "irr_step rate cfs = Inr (rate', stop)"
    and r': "- (1/2) \<le> rate'" "rate' \<le> 10"
    using irr_step_in_range[OF Suc.prems] by blast
  show ?case
  proof (cases stop)
    case True
    then show ?thesis using s r' by simp
  next
    case False
    then show ?thesis using s Suc.IH[OF r' Suc.prems(3)] by simp
  qed
qed

lemma estimate_irr_zero: "estimate_irr (replicate n 0) = Inr 0"
proof -
  have "list_all (\<lambda>cf. cf = (0::real)) (replicate n 0)" by (simp add: list_all_iff)
  then show ?thesis by (simp add: estimate_irr_def estimate_irr_from_def)
qed

lemma estimate_irr_range:
  assumes "length cfs \<le> 296"
  shows "\<exists>v. estimate_irr cfs = Inr v \<and> - 50 \<le> v \<and> v \<le> 1000"
proof (cases "cfs = [] \<or> list_all (\<lambda>cf. cf = 0) cfs")
  case True
  then show ?thesis by (auto simp: estimate_irr_def estimate_irr_from_def)
next
  case False
  obtain r where r: "irr_loop 100 (10/100) cfs = Inr r" "- (1/2) \<le> r" "r \<le> 10"
    using irr_loop_in_range[of "10/100" cfs 100] assms by auto
  have lo: "round_nd 1 (- 50) \<le> round_nd 1 (r * 100)" using r by (intro round_nd_mono) simp
  have hi: "round_nd 1 (r * 100) \<le> round_nd 1 1000" using r by (intro round_nd_mono) simp
  have "round_nd 1 (- 50) = - 50" using round_nd_of_int[of 1 "- 50"] by simp
  moreover have "round_nd 1 1000 = 1000" by (simp add: round_nd_numeral)
  ultimately show ?thesis using False r lo hi
    by (simp add: estimate_irr_def estimate_irr_from_def)
qed

text \<open>
  Claim C9, as amended. The IRR estimator returns 0.0 for an all-zero cash-flow vector.
  For every cash-flow vector of at most 296 entries (so for the vectors of one negative
  entry followed by up to 295 positive ones) it raises nothing and returns a value in
  [-50, 1000] percent. On every iteration of the Newton loop, for a vector of any length,
  the rate after the loop body is the rate before it (the loop broke before the update) or
  lies in [-0.5, 10], that is in [-50%, 1000%]; the loop starts from the guess 0.10.
\<close>

theorem estimate_irr_short_vector:
  "estimate_irr (replicate n 0) = Inr 0 \<and>
   (length cashflows \<le> 296 \<longrightarrow>
      (\<exists>v. estimate_irr cashflows = Inr v \<and> - 50 \<le> v \<and> v \<le> 1000)) \<and>
   (\<forall>rate rate' stop. irr_step rate cashflows = Inr (rate', stop) \<longrightarrow>
      rate' = rate \<or> (- (1/2) \<le> rate' \<and> rate' \<le> 10))"
  using estimate_irr_zero estimate_irr_range irr_step_clamped by blast

lemma irr_step_sample:
  "irr_step (10/100) [- 1000, 500, 500, 500] = Inr (6769/32050, False)"
proof -
  have p: "\<And>n. n \<le> 4 \<Longrightarrow> float_pow (1 + 10/100) n = Inr ((1 + 10/100) ^ n)"
    using float_pow_in_range(1)[of "1 + 10/100"] by simp
  have e: "enumerate 0 [- 1000, 500, 500, 500 :: real]
             = [(0, - 1000), (1, 500), (2, 500), (3, 500)]"
    by (simp add: enumerate_eq_zip upt_rec numeral_eq_Suc)
  have n: "npv_at (10/100) [- 1000, 500, 500, 500] = Inr (324000/1331)"
    unfolding npv_at_def e using p[of 0] p[of 1] p[of 2] p[of 3]
    by (simp add: float_div_def power_divide)
  have d: "dnpv_at (10/100) [- 1000, 500, 500, 500] = Inr (- 32050000/14641)"
    unfolding dnpv_at_def e using p[of 1] p[of "Suc (Suc 0)"] p[of 3] p[of 4]
    by (simp add: float_div_def power_divide)
  show ?thesis using n d by (simp add: irr_step_def)
qed

theorem estimate_irr_short_vector_witness:
  "estimate_irr (replicate 3 0) = Inr 0 \<and>
   length [- 1000, 500, 500, 500 :: real] \<le> 296 \<and>
   (\<exists>v. estimate_irr [- 1000, 500, 500, 500] = Inr v \<and> - 50 \<le> v \<and> v \<le> 1000) \<and>
   irr_step (10/100) [- 1000, 500, 500, 500] = Inr (6769/32050, False) \<and>
   - (1/2) \<le> (6769/32050 :: real) \<and> (6769/32050 :: real) \<le> 10"
proof -
  have l: "length [- 1000, 500, 500, 500 :: real] \<le> 296" by simp
  show ?thesis
    using estimate_irr_short_vector[of 3 "[- 1000, 500, 500, 500]"] l irr_step_sample by simp
qed

lemma pow_8192: "(2::real) ^ 1024 \<le> (11/10) ^ 8192"
proof -
  have "(2::real) \<le> (11/10) ^ 8" by (simp add: power_divide)
  then have "(2::real) ^ 1024 \<le> ((11/10) ^ 8) ^ 1024" by (intro power_mono) auto
  also have "((11/10::real) ^ 8) ^ 1024 = (11/10) ^ (8 * 1024)" by (rule power_mult[symmetric])
  finally show ?thesis by simp
qed

text \<open>
  Claim C9 as stated fails on long vectors. For one negative entry followed by 8192
  positive ones, the first pass of the loop computes \<open>1.1 ** 8192\<close>, which is beyond the
  float range, and the estimator raises OverflowError instead of returning a value.
\<close>

theorem estimate_irr_overflow_counterexample:
  "estimate_irr (- 1 # replicate 8192 1000) = Inl OverflowError"
proof -
  let ?cfs = "- 1 # replicate 8192 (1000::real)"
  let ?f = "\<lambda>(t, cf). case float_pow (1 + 10/100) t of
                          Inl e \<Rightarrow> Inl e | Inr pw \<Rightarrow> float_div cf pw"
  have all: "\<forall>x\<in>set (map ?f (enumerate 0 ?cfs)). x = Inl OverflowError \<or> (\<exists>r. x = Inr r)"
  proof
    fix x
    assume "x \<in> set (map ?f (enumerate 0 ?cfs))"
    then obtain t cf where x: "x = ?f (t, cf)" by auto
    have ge1: "1 \<le> (1 + 10/100 :: real) ^ t" by (intro one_le_power) simp
    have ub: "float_underflow_bound < 1" by (simp add: float_underflow_bound_def)
    have "\<bar>(1 + 10/100 :: real) ^ t\<bar> = (1 + 10/100) ^ t" using ge1 by simp
    then have nz: "\<not> \<bar>(1 + 10/100 :: real) ^ t\<bar> \<le> float_underflow_bound"
      using ge1 ub by linarith
    have "(1 + 10/100 :: real) ^ t \<noteq> 0" by simp
    then show "x = Inl OverflowError \<or> (\<exists>r. x = Inr r)"
      using x nz unfolding float_pow_def float_div_def by simp
  qed
  have len: "length ?cfs = 8193" by simp
  have "(8192, ?cfs ! 8192) \<in> set (enumerate 0 ?cfs)"
    unfolding in_set_enumerate_eq using len by simp
  then have "?f (8192, ?cfs ! 8192) \<in> ?f ` set (enumerate 0 ?cfs)"
    by (rule imageI)
  then have mem: "?f (8192, ?cfs ! 8192) \<in> set (map ?f (enumerate 0 ?cfs))"
    by (simp only: set_map)
  have "float_overflow_bound \<le> \<bar>(1 + 10/100 :: real) ^ 8192\<bar>"
  proof -
    have "float_overflow_bound \<le> 2 ^ 1024" by (simp add: float_overflow_bound_def)
    also have "\<dots> \<le> (11/10) ^ 8192" by (rule pow_8192)
    finally show ?thesis by simp
  qed
  then have "float_pow (1 + 10/100) 8192 = Inl OverflowError" by (simp add: float_pow_def)
  then have "?f (8192, ?cfs ! 8192) = Inl OverflowError" by simp
  then have "Inl OverflowError \<in> set (map ?f (enumerate 0 ?cfs))" using mem by simp
  then have "npv_at (10/100) ?cfs = Inl OverflowError"
    unfolding npv_at_def using all by (intro sum_err_overflow) auto
  then have "irr_step (10/100) ?cfs = Inl OverflowError" by (simp add: irr_step_def)
  then have "irr_loop 100 (10/100) ?cfs = Inl OverflowError"
    using irr_loop.simps(2)[of 99 "10/100" ?cfs] by simp
  then show ?thesis by (simp add: estimate_irr_def estimate_irr_from_def)
qed

section \<open>The cascade step: what it reads and what it writes\<close>

lemma inputs_of_no_roles [simp]: "inputs_of (no_roles_update x) = inputs_of x"
  by (simp add: inputs_of_def no_roles_update_def)

lemma same_inputs_fields:
  assumes "inputs_of x = inputs_of y"
  shows "lever x = lever y" "ramp x = ramp y" "startMonth x = startMonth y"
    "benefit_end_of x = benefit_end_of y" "init_id x = init_id y" "enabled x = enabled y"
    "linked_queues x qs = linked_queues y qs" "sort_key_of x = sort_key_of y"
    "affected_roles x rs = affected_roles y rs"
    "matching_queues x eqs = matching_queues y eqs"
  using assms
  by (simp_all add: inputs_of_def benefit_end_of_def linked_queues_def sort_key_of_def
      affected_roles_def matching_queues_def)

lemma same_inputs_dispatch:
  "inputs_of x = inputs_of y \<Longrightarrow> gross_dispatch x mq rs p = gross_dispatch y mq rs p"
  by (simp add: inputs_of_def gross_dispatch_def affected_roles_def cong: if_cong)

lemma same_inputs_gross:
  assumes "inputs_of x = inputs_of y"
  shows "compute_gross_impact x qs rs p = compute_gross_impact y qs rs p"
  unfolding compute_gross_impact_def
  using same_inputs_fields(10)[OF assms] same_inputs_dispatch[OF assms] by simp

lemma same_inputs_step_red:
  assumes "inputs_of x = inputs_of y"
  shows "step_red d aq x pc = step_red d aq y pc"
  unfolding step_red_def
  using same_inputs_fields(1)[OF assms] same_inputs_fields(9)[OF assms]
    same_inputs_gross[OF assms] by (simp add: Let_def)

lemma same_inputs_step_core:
  assumes "inputs_of x = inputs_of y"
  shows "step_core d aq x pc = step_core d aq y pc"
  unfolding step_core_def
  using same_inputs_fields(1)[OF assms] same_inputs_fields(9)[OF assms]
    same_inputs_gross[OF assms] same_inputs_step_red[OF assms] by (simp add: Let_def)

lemma cascade_step_length [simp]: "length (cs_inits (cascade_step d aq i st)) = length (cs_inits st)"
  by (simp add: cascade_step_def location_step_def netting_step_def Let_def case_prod_beta)

lemma cascade_step_other:
  "j \<noteq> i \<Longrightarrow> cs_inits (cascade_step d aq i st) ! j = cs_inits st ! j"
  by (simp add: cascade_step_def location_step_def netting_step_def Let_def case_prod_beta)

lemma cascade_step_inputs:
  "inputs_of (cs_inits (cascade_step d aq i st) ! j) = inputs_of (cs_inits st ! j)"
proof (cases "j = i")
  case True
  show ?thesis
  proof (cases "i < length (cs_inits st)")
    case l: True
    then show ?thesis using True
      by (simp add: cascade_step_def location_step_def netting_step_def Let_def case_prod_beta
          inputs_of_def no_roles_update_def)
  next
    case False
    then have "length (cs_inits st) \<le> i" by simp
    then show ?thesis using True
      by (simp add: cascade_step_def location_step_def netting_step_def Let_def case_prod_beta
          list_update_beyond)
  qed
next
  case False
  then show ?thesis by (simp add: cascade_step_other)
qed

lemma step_core_eq:
  "(cs_pools (cascade_step d aq i st), role_cum (cascade_step d aq i st))
     = step_core d aq (cs_inits st ! i) (cs_pools st, role_cum st)"
  by (simp add: cascade_step_def location_step_def netting_step_def step_core_def step_red_def
      Let_def case_prod_beta)


lemma fold_cascade_length [simp]:
  "length (cs_inits (fold (cascade_step d aq) js st)) = length (cs_inits st)"
  by (induction js arbitrary: st) simp_all

lemma fold_cascade_inputs:
  "inputs_of (cs_inits (fold (cascade_step d aq) js st) ! j) = inputs_of (cs_inits st ! j)"
  by (induction js arbitrary: st) (simp_all add: cascade_step_inputs)

lemma fold_cascade_other:
  "j \<notin> set js \<Longrightarrow> cs_inits (fold (cascade_step d aq) js st) ! j = cs_inits st ! j"
  by (induction js arbitrary: st) (simp_all add: cascade_step_other)

lemma fold_step_core:
  assumes "\<forall>j. inputs_of (cs_inits st ! j) = inputs_of (inits0 ! j)"
  shows "(cs_pools (fold (cascade_step d aq) js st), role_cum (fold (cascade_step d aq) js st))
           = fold (\<lambda>i. step_core d aq (inits0 ! i)) js (cs_pools st, role_cum st)"
  using assms
proof (induction js arbitrary: st)
  case Nil
  then show ?case by simp
next
  case (Cons i js)
  have a: "\<forall>j. inputs_of (cs_inits (cascade_step d aq i st) ! j) = inputs_of (inits0 ! j)"
    using Cons.prems by (simp add: cascade_step_inputs)
  have b: "step_core d aq (cs_inits st ! i) (cs_pools st, role_cum st)
             = step_core d aq (inits0 ! i) (cs_pools st, role_cum st)"
    using Cons.prems by (intro same_inputs_step_core) simp
  show ?case using Cons.IH[OF a] b step_core_eq[of d aq i st] by simp
qed

lemma cascade_core:
  "(cs_pools (cascade d inits), role_cum (cascade d inits))
     = fold (\<lambda>i. step_core d (annual_queues_of d) (inits ! i)) (sorted_inits inits)
         (fst (compute_pools (enrich_intents (data_queues d)) (data_roles d) (data_params d)),
          \<lambda>_. 0)"
  unfolding cascade_def
  using fold_step_core[of "initial_state d inits" inits d "annual_queues_of d" "sorted_inits inits"]
  by (simp add: initial_state_def)

lemma cost_reduction_is_location:
  "lever init = ''cost_reduction'' \<Longrightarrow> is_location (compute_gross_impact init aq rs p)"
  by (simp add: compute_gross_impact_def gross_dispatch_def gross_location_def Let_def)

lemma not_location_iff:
  "is_location (compute_gross_impact init aq rs p) \<longleftrightarrow> lever init = ''cost_reduction''"
  by (simp add: compute_gross_impact_def gross_dispatch_def gross_location_def Let_def
      gross_deflection_def gross_aht_reduction_def gross_escalation_def gross_repeat_def
      gross_transfer_def gross_shrinkage_def gross_generic_def)

lemma tenth_multiple_round_Suc: "tenth_multiple (round_nd (Suc 0) x)"
  using tenth_multiple_round[of x] by simp

lemma gross_fte_tenth: "tenth_multiple (gross_fte (compute_gross_impact init aq rs p))"
  by (simp add: compute_gross_impact_def gross_dispatch_def gross_location_def Let_def
      gross_deflection_def gross_aht_reduction_def gross_escalation_def gross_repeat_def
      gross_transfer_def gross_shrinkage_def gross_generic_def tenth_multiple_round_Suc
      tenth_multiple_zero)

lemma gross_migrated_tenth:
  "tenth_multiple (gross_fte_migrated (compute_gross_impact init aq rs p))"
  by (simp add: compute_gross_impact_def gross_dispatch_def gross_location_def Let_def
      gross_deflection_def gross_aht_reduction_def gross_escalation_def gross_repeat_def
      gross_transfer_def gross_shrinkage_def gross_generic_def tenth_multiple_round_Suc
      tenth_multiple_zero)

lemma consume_pool_consumed_le:
  assumes "0 \<le> a" and "tenth_multiple a"
  shows "consumed_fte (fst (consume_pool ps lv a c s)) \<le> a"
    and "0 \<le> consumed_fte (fst (consume_pool ps lv a c s))"
proof -
  have m: "\<And>r. round_nd 1 (min a r) \<le> a"
  proof -
    fix r
    have "round_nd 1 (min a r) \<le> round_nd 1 a" by (intro round_nd_mono) simp
    then show "round_nd 1 (min a r) \<le> a" using tenth_multiple_fix[OF assms(2)] by simp
  qed
  show "consumed_fte (fst (consume_pool ps lv a c s)) \<le> a"
    using assms(1) m by (simp add: consume_pool_def Let_def split: option.splits)
  have n: "\<And>r. 0 < r \<Longrightarrow> 0 \<le> round_nd 1 (min a r)"
    using assms(1) by (intro round_nd_nonneg) simp
  show "0 \<le> consumed_fte (fst (consume_pool ps lv a c s))"
    using n by (simp add: consume_pool_def Let_def split: option.splits)
qed

lemma type_cap_factor_pos: "0 < type_cap_factor lv"
  by (simp add: type_cap_factor_def INITIATIVE_FTE_CAPS_def)

lemma capped_reduction_bounds:
  assumes "0 \<le> tot_aff"
  shows "0 \<le> capped_reduction lv net tot_aff cum affected"
    and "capped_reduction lv net tot_aff cum affected
           \<le> min (ABSOLUTE_SINGLE_INIT_CAP * tot_aff) (type_cap_factor lv * tot_aff)"
    and "capped_reduction lv net tot_aff cum affected \<le> max 0 net"
proof -
  have t: "0 \<le> type_cap_factor lv * tot_aff"
    using assms type_cap_factor_pos[of lv] by simp
  have a: "0 \<le> ABSOLUTE_SINGLE_INIT_CAP * tot_aff"
    using assms by (simp add: ABSOLUTE_SINGLE_INIT_CAP_def)
  show "0 \<le> capped_reduction lv net tot_aff cum affected"
    by (simp add: capped_reduction_def Let_def)
  show "capped_reduction lv net tot_aff cum affected
           \<le> min (ABSOLUTE_SINGLE_INIT_CAP * tot_aff) (type_cap_factor lv * tot_aff)"
    using t a by (simp add: capped_reduction_def Let_def min_le_iff_disj)
  show "capped_reduction lv net tot_aff cum affected \<le> max 0 net"
    unfolding capped_reduction_def Let_def by linarith
qed

lemma netting_fte_impact:
  assumes "i < length (cs_inits st)"
    and "sum_list (map headcount (affected_roles (cs_inits st ! i) (data_roles d))) \<noteq> 0"
    and "\<not> is_location (compute_gross_impact (cs_inits st ! i) aq (data_roles d) (data_params d))"
  shows "out_fteImpact (cs_inits (cascade_step d aq i st) ! i)
           = Some (round_nd 1 (step_red d aq (cs_inits st ! i) (cs_pools st, role_cum st)))"
  using assms
  by (simp add: cascade_step_def netting_step_def step_red_def Let_def case_prod_beta)

lemma location_fte_impact:
  assumes "i < length (cs_inits st)"
    and "is_location (compute_gross_impact (cs_inits st ! i) aq (data_roles d) (data_params d))
         \<or> sum_list (map headcount (affected_roles (cs_inits st ! i) (data_roles d))) = 0"
  shows "out_fteImpact (cs_inits (cascade_step d aq i st) ! i) = Some 0"
  using assms
  by (auto simp: cascade_step_def location_step_def no_roles_update_def Let_def case_prod_beta)


lemma affected_fte_nonneg:
  assumes "\<forall>r\<in>set rs. 0 \<le> headcount r"
  shows "0 \<le> sum_list (map headcount (affected_roles init rs))"
  using assms by (intro sum_list_nonneg) (auto simp: affected_roles_def)

section \<open>The safety caps on one initiative\<close>

text \<open>
  Claim C3, as amended. Take any iteration of the cascade in which the roster has no
  negative headcount and the gross impact of the initiative is not negative. Then the
  net reduction \<^verbatim>\<open>_fteImpact\<close> is \<open>round(red, 1)\<close> for a value \<open>red\<close> that is at
  most the gross FTE and at most \<open>min(0.20 * affected_fte, cap * affected_fte)\<close>, where
  \<open>cap\<close> is the entry of the lever in \<^verbatim>\<open>INITIATIVE_FTE_CAPS\<close>, or 0.12 for a lever
  without an entry. So \<^verbatim>\<open>_fteImpact\<close> itself is at most the gross FTE, and exceeds
  the cap by no more than the rounding to one decimal, 0.05.
\<close>

theorem cascade_step_fte_impact_bounds:
  assumes "i < length (cs_inits st)"
    and "\<forall>r\<in>set (data_roles d). 0 \<le> headcount r"
    and "0 \<le> gross_fte (compute_gross_impact (cs_inits st ! i) aq (data_roles d) (data_params d))"
  shows "\<exists>red.
           out_fteImpact (cs_inits (cascade_step d aq i st) ! i) = Some (round_nd 1 red) \<and>
           red \<le> gross_fte (compute_gross_impact (cs_inits st ! i) aq (data_roles d)
                              (data_params d)) \<and>
           round_nd 1 red \<le> gross_fte (compute_gross_impact (cs_inits st ! i) aq (data_roles d)
                                         (data_params d)) \<and>
           red \<le> min (ABSOLUTE_SINGLE_INIT_CAP
                         * sum_list (map headcount (affected_roles (cs_inits st ! i) (data_roles d))))
                       (type_cap_factor (lever (cs_inits st ! i))
                         * sum_list (map headcount (affected_roles (cs_inits st ! i) (data_roles d)))) \<and>
           round_nd 1 red
             \<le> min (ABSOLUTE_SINGLE_INIT_CAP
                       * sum_list (map headcount (affected_roles (cs_inits st ! i) (data_roles d))))
                     (type_cap_factor (lever (cs_inits st ! i))
                       * sum_list (map headcount (affected_roles (cs_inits st ! i) (data_roles d))))
               + 1/20"
proof -
  let ?init = "cs_inits st ! i"
  let ?g = "compute_gross_impact ?init aq (data_roles d) (data_params d)"
  let ?aff = "sum_list (map headcount (affected_roles ?init (data_roles d)))"
  let ?cap = "min (ABSOLUTE_SINGLE_INIT_CAP * ?aff) (type_cap_factor (lever ?init) * ?aff)"
  have aff: "0 \<le> ?aff" using affected_fte_nonneg[OF assms(2)] .
  have tenth: "tenth_multiple (gross_fte ?g)" by (rule gross_fte_tenth)
  have cap0: "0 \<le> ?cap"
    using aff type_cap_factor_pos[of "lever ?init"] by (simp add: ABSOLUTE_SINGLE_INIT_CAP_def)
  have main: "\<exists>red. out_fteImpact (cs_inits (cascade_step d aq i st) ! i) = Some (round_nd 1 red)
                \<and> red \<le> gross_fte ?g \<and> red \<le> ?cap"
  proof (cases "is_location ?g \<or> ?aff = 0")
    case True
    then have "out_fteImpact (cs_inits (cascade_step d aq i st) ! i) = Some 0"
      using location_fte_impact[OF assms(1)] by simp
    then have "out_fteImpact (cs_inits (cascade_step d aq i st) ! i) = Some (round_nd 1 0)"
      by (simp add: round_nd_zero)
    then show ?thesis using assms(3) cap0 by blast
  next
    case False
    let ?red = "step_red d aq ?init (cs_pools st, role_cum st)"
    have o: "out_fteImpact (cs_inits (cascade_step d aq i st) ! i) = Some (round_nd 1 ?red)"
      using False netting_fte_impact[OF assms(1)] by simp
    have net: "consumed_fte (fst (consume_pool (cs_pools st) (lever ?init) (gross_fte ?g)
                 (gross_contacts ?g) (gross_seconds ?g))) \<le> gross_fte ?g"
      using consume_pool_consumed_le(1)[OF assms(3) tenth] .
    have r1: "?red \<le> max 0 (consumed_fte (fst (consume_pool (cs_pools st) (lever ?init)
                 (gross_fte ?g) (gross_contacts ?g) (gross_seconds ?g))))"
      unfolding step_red_def Let_def fst_conv snd_conv
      using capped_reduction_bounds(3)[OF aff] by simp
    have r2: "?red \<le> ?cap"
      unfolding step_red_def Let_def fst_conv snd_conv
      using capped_reduction_bounds(2)[OF aff] by simp
    have "?red \<le> gross_fte ?g" using r1 net assms(3) by linarith
    then show ?thesis using o r2 by blast
  qed
  then obtain red where red:
    "out_fteImpact (cs_inits (cascade_step d aq i st) ! i) = Some (round_nd 1 red)"
    "red \<le> gross_fte ?g" "red \<le> ?cap" by blast
  have "round_nd 1 red \<le> round_nd 1 (gross_fte ?g)" using red(2) by (rule round_nd_mono)
  then have a: "round_nd 1 red \<le> gross_fte ?g" using tenth_multiple_fix[OF tenth] by simp
  have b: "round_nd 1 red \<le> ?cap + 1/20" using round_nd_1_upper[of red] red(3) by linarith
  show ?thesis using red a b by blast
qed

section \<open>Location initiatives\<close>

lemma enrich_migration_nonneg:
  assumes "complexity q \<le> 1"
  shows "0 \<le> migration_readiness (enrich_intent q)"
proof -
  have "0 \<le> migration_readiness_of ch (complexity q) er ar" for ch er ar
    using assms by (simp add: migration_readiness_of_def round_nd_nonneg)
  then show ?thesis
    by (simp add: enrich_intent_def Let_def queue.extend_def enriched_queue.fields_def
        queue.defs enriched_queue.defs)
qed

lemma annual_queues_migration_nonneg:
  assumes "\<forall>q\<in>set (data_queues d). complexity q \<le> 1"
  shows "\<forall>q\<in>set (annual_queues_of d). 0 \<le> migration_readiness q"
  using assms by (auto simp: annual_queues_of_def enrich_intents_def Let_def enrich_migration_nonneg)

lemma matching_queues_subset: "set (matching_queues init aq) \<subseteq> set aq"
  by (auto simp: matching_queues_def Let_def)

lemma gross_location_zero:
  assumes "\<forall>q\<in>set mq. migration_readiness q = 0"
  shows "gross_saving (gross_location mq aff cost imp adopt p) = 0"
    and "gross_fte_migrated (gross_location mq aff cost imp adopt p) = 0"
proof -
  have "map (\<lambda>q. volume q * migration_readiness q) mq = map (\<lambda>q. 0) mq"
    using assms by simp
  then have z: "sum_list (map (\<lambda>q. volume q * migration_readiness q) mq) = 0"
    by (simp del: map_eq_conv)
  show "gross_saving (gross_location mq aff cost imp adopt p) = 0"
    using z by (simp add: gross_location_def Let_def round0_zero)
  show "gross_fte_migrated (gross_location mq aff cost imp adopt p) = 0"
    using z by (simp add: gross_location_def Let_def round_nd_zero)
qed

lemma cost_reduction_gross:
  "lever init = ''cost_reduction'' \<Longrightarrow>
   compute_gross_impact init aq rs p
     = gross_location (matching_queues init aq) (sum_list (map headcount (affected_roles init rs)))
         (weighted_cost_of (affected_roles init rs)) (impact init) (adoption init) p"
  by (simp add: compute_gross_impact_def gross_dispatch_def Let_def)

text \<open>
  Claim C8. In the iteration of the cascade that processes a \<open>cost_reduction\<close>
  initiative, \<^verbatim>\<open>_fteImpact\<close> is set to 0 and neither \<^verbatim>\<open>role_cum\<close> nor the yearly
  ledger of \<^verbatim>\<open>role_impact\<close> changes; and when no queue that the initiative matches has
  a migration readiness above 0, its annual saving is exactly 0. The queues are the
  enriched, annualized queues of the run; complexity is at most 1, as in the data model,
  which keeps the migration readiness of an IVR queue from being negative.
\<close>

theorem location_initiative_step:
  assumes "i < length (cs_inits st)"
    and "lever (cs_inits st ! i) = ''cost_reduction''"
    and "\<forall>q\<in>set (data_queues d). complexity q \<le> 1"
  shows "out_fteImpact (cs_inits (cascade_step d (annual_queues_of d) i st) ! i) = Some 0 \<and>
         role_cum (cascade_step d (annual_queues_of d) i st) = role_cum st \<and>
         role_impact_yearly (cascade_step d (annual_queues_of d) i st) = role_impact_yearly st \<and>
         ((\<forall>q\<in>set (matching_queues (cs_inits st ! i) (annual_queues_of d)).
              \<not> 0 < migration_readiness q) \<longrightarrow>
          out_annualSaving (cs_inits (cascade_step d (annual_queues_of d) i st) ! i) = Some 0)"
proof -
  let ?init = "cs_inits st ! i"
  let ?aq = "annual_queues_of d"
  let ?g = "compute_gross_impact ?init ?aq (data_roles d) (data_params d)"
  have loc: "is_location ?g" using assms(2) by (rule cost_reduction_is_location)
  have a: "out_fteImpact (cs_inits (cascade_step d ?aq i st) ! i) = Some 0"
    using location_fte_impact[OF assms(1)] loc by simp
  have b: "role_cum (cascade_step d ?aq i st) = role_cum st"
    using loc by (simp add: cascade_step_def location_step_def Let_def case_prod_beta)
  have c: "role_impact_yearly (cascade_step d ?aq i st) = role_impact_yearly st"
    using loc by (simp add: cascade_step_def location_step_def Let_def case_prod_beta)
  have e: "out_annualSaving (cs_inits (cascade_step d ?aq i st) ! i) = Some 0"
    if h: "\<forall>q\<in>set (matching_queues ?init ?aq). \<not> 0 < migration_readiness q"
  proof -
    have "\<forall>q\<in>set (matching_queues ?init ?aq). 0 \<le> migration_readiness q"
      using annual_queues_migration_nonneg[OF assms(3)] matching_queues_subset[of ?init ?aq]
      by blast
    then have z: "\<forall>q\<in>set (matching_queues ?init ?aq). migration_readiness q = 0"
      using h by force
    have g1: "gross_saving ?g = 0" and g2: "gross_fte_migrated ?g = 0"
      using gross_location_zero[OF z] cost_reduction_gross[OF assms(2)] by simp_all
    show ?thesis
      using assms(1) loc g1 g2
      by (simp add: cascade_step_def location_step_def no_roles_update_def Let_def
          case_prod_beta round0_zero)
  qed
  show ?thesis using a b c e by blast
qed

section \<open>The pools during a run\<close>

lemma consume_pool_other_key:
  "k \<noteq> pool_key_of lv \<Longrightarrow>
   map_of (fst (snd (consume_pool ps lv a c s))) k = map_of ps k"
  by (simp add: consume_pool_def Let_def update_conv' split: option.splits)

lemma consume_pool_no_pool:
  "map_of ps (pool_key_of lv) = None \<Longrightarrow>
   fst (snd (consume_pool ps lv a c s)) = ps \<and> consumed_fte (fst (consume_pool ps lv a c s)) = 0"
  by (simp add: consume_pool_def)

lemma consume_pool_own_key:
  assumes p: "map_of ps (pool_key_of lv) = Some p" and ok: "pool_ok p"
    and a: "0 \<le> a" and t: "tenth_multiple a"
  shows "\<exists>p'. map_of (fst (snd (consume_pool ps lv a c s))) (pool_key_of lv) = Some p' \<and>
              pool_ok p' \<and> ceiling_fte p' = ceiling_fte p \<and>
              remaining_fte p' + consumed_fte (fst (consume_pool ps lv a c s)) = remaining_fte p \<and>
              0 \<le> consumed_fte (fst (consume_pool ps lv a c s))"
proof (cases "remaining_fte p \<le> 0")
  case True
  then show ?thesis using p ok by (simp add: consume_pool_def)
next
  case False
  let ?act = "min a (remaining_fte p)"
  have rt: "tenth_multiple (remaining_fte p)" using ok by (simp add: pool_ok_def)
  have at: "tenth_multiple ?act" using t rt by (rule tenth_multiple_min)
  have dt: "tenth_multiple (remaining_fte p - ?act)" using rt at by (rule tenth_multiple_diff)
  have r1: "round_nd 1 ?act = ?act" using at by (rule tenth_multiple_fix)
  have r2: "round_nd 1 (remaining_fte p - ?act) = remaining_fte p - ?act"
    using dt by (rule tenth_multiple_fix)
  have act0: "0 \<le> ?act" using a False by simp
  have le: "?act \<le> remaining_fte p" by simp
  let ?p' = "deduct_pool p ?act (?act / max a (1/1000)) c s"
  have rem': "remaining_fte ?p' = remaining_fte p - ?act"
    using r2 by (simp add: deduct_pool_def)
  have ceil': "ceiling_fte ?p' = ceiling_fte p" by (simp add: deduct_pool_def)
  have n1: "0 \<le> remaining_fte p - ?act" using le by linarith
  have n2: "remaining_fte p - ?act \<le> ceiling_fte p"
    using ok act0 unfolding pool_ok_def by linarith
  have ok': "pool_ok ?p'"
    unfolding pool_ok_def ceil' rem' using n1 n2 dt by blast
  have m: "map_of (fst (snd (consume_pool ps lv a c s))) (pool_key_of lv) = Some ?p'"
    using p False by (simp add: consume_pool_def Let_def update_conv')
  have cf: "consumed_fte (fst (consume_pool ps lv a c s)) = ?act"
    using p False r1 by (simp add: consume_pool_def Let_def)
  show ?thesis using m ok' ceil' rem' cf act0 by simp
qed

lemma round0_idem_zero: "round0 (round0 0) = 0"
  by (simp add: round0_zero)


lemma net_on_pool_snoc:
  "net_on_pool (tr @ [e]) k
     = net_on_pool tr k + (if pool_key_of (audit_lever e) = k then audit_net_fte e else 0)"
  by (simp add: net_on_pool_def)

lemma consumed_fte_tenth: "tenth_multiple (consumed_fte (fst (consume_pool ps lv a c s)))"
  by (simp add: consume_pool_def Let_def tenth_multiple_zero tenth_multiple_round_Suc
      split: option.splits)

lemma inv_consume:
  assumes inv: "pools_inv st"
    and pools': "cs_pools st' = fst (snd (consume_pool (cs_pools st) lv a c s))"
    and audit': "audit_trail st' = audit_trail st @ [e]"
    and lev: "audit_lever e = lv"
    and a: "0 \<le> a" and t: "tenth_multiple a"
    and n0: "0 \<le> audit_net_fte e"
    and n1: "audit_net_fte e \<le> consumed_fte (fst (consume_pool (cs_pools st) lv a c s))"
  shows "pools_inv st'" and "pools_shrink st st'"
proof -
  let ?key = "pool_key_of lv"
  let ?c = "consumed_fte (fst (consume_pool (cs_pools st) lv a c s))"
  have old: "\<And>k p. map_of (cs_pools st) k = Some p \<Longrightarrow>
               pool_ok p \<and> net_on_pool (audit_trail st) k + remaining_fte p \<le> ceiling_fte p"
    using inv by (simp add: pools_inv_def)
  have other: "\<And>k. k \<noteq> ?key \<Longrightarrow> map_of (cs_pools st') k = map_of (cs_pools st) k"
    unfolding pools' by (rule consume_pool_other_key)
  have own_none: "map_of (cs_pools st) ?key = None \<Longrightarrow> map_of (cs_pools st') ?key = None"
    unfolding pools' using consume_pool_no_pool[of "cs_pools st" lv a c s] by simp
  have own_some: "\<And>p. map_of (cs_pools st) ?key = Some p \<Longrightarrow>
      \<exists>p'. map_of (cs_pools st') ?key = Some p' \<and> pool_ok p' \<and> ceiling_fte p' = ceiling_fte p \<and>
            remaining_fte p' + ?c = remaining_fte p \<and> 0 \<le> ?c"
    unfolding pools' using consume_pool_own_key[OF _ _ a t] old by blast
  have pools_part: "map_of (cs_pools st') k = Some p' \<Longrightarrow>
      pool_ok p' \<and> net_on_pool (audit_trail st') k + remaining_fte p' \<le> ceiling_fte p'" for k p'
  proof -
    assume m: "map_of (cs_pools st') k = Some p'"
    show ?thesis
    proof (cases "k = ?key")
      case False
      then have "map_of (cs_pools st) k = Some p'" using m other by simp
      then show ?thesis using old[of k p'] False lev by (simp add: audit' net_on_pool_snoc)
    next
      case True
      then obtain p where p: "map_of (cs_pools st) ?key = Some p"
        using m own_none by (cases "map_of (cs_pools st) ?key") auto
      obtain q where q: "map_of (cs_pools st') ?key = Some q" "pool_ok q"
        "ceiling_fte q = ceiling_fte p" "remaining_fte q + ?c = remaining_fte p"
        using own_some[OF p] by blast
      have qp: "q = p'" using q(1) m True by simp
      have "net_on_pool (audit_trail st) ?key + remaining_fte p \<le> ceiling_fte p"
        using old[OF p] by simp
      then have "net_on_pool (audit_trail st) ?key + audit_net_fte e + remaining_fte q
                   \<le> ceiling_fte q"
        using q(3) q(4) n1 by linarith
      then show ?thesis using q(2) qp True lev by (simp add: audit' net_on_pool_snoc)
    qed
  qed
  have audit_part: "\<forall>x\<in>set (audit_trail st'). 0 \<le> audit_net_fte x"
    using inv n0 by (auto simp: pools_inv_def audit')
  show "pools_inv st'" unfolding pools_inv_def using pools_part audit_part by blast
  show "pools_shrink st st'"
    unfolding pools_shrink_def
  proof (intro allI impI)
    fix k p
    assume p: "map_of (cs_pools st) k = Some p"
    show "\<exists>p'. map_of (cs_pools st') k = Some p' \<and> remaining_fte p' \<le> remaining_fte p \<and>
               ceiling_fte p' = ceiling_fte p"
    proof (cases "k = ?key")
      case False
      then show ?thesis using p other by simp
    next
      case True
      then obtain q where "map_of (cs_pools st') ?key = Some q" "ceiling_fte q = ceiling_fte p"
        "remaining_fte q + ?c = remaining_fte p" "0 \<le> ?c"
        using own_some[of p] p by blast
      then show ?thesis using True by (intro exI[of _ q]) simp
    qed
  qed
qed

lemma inv_no_consume:
  assumes inv: "pools_inv st"
    and pools': "cs_pools st' = cs_pools st"
    and audit': "audit_trail st' = audit_trail st \<or>
                 (\<exists>e. audit_trail st' = audit_trail st @ [e] \<and> audit_net_fte e = 0)"
  shows "pools_inv st'" and "pools_shrink st st'"
proof -
  have n: "net_on_pool (audit_trail st') k = net_on_pool (audit_trail st) k" for k
    using audit' by (auto simp: net_on_pool_snoc)
  have s: "\<forall>x\<in>set (audit_trail st'). 0 \<le> audit_net_fte x"
    using inv audit' by (auto simp: pools_inv_def)
  show "pools_inv st'" using inv s unfolding pools_inv_def pools' n by blast
  show "pools_shrink st st'" unfolding pools_shrink_def pools' by simp
qed

section \<open>Evaluations on the sample data\<close>

theorem compute_gross_impact_no_channel_match_witness:
  "matching_queues fax_initiative (annual_queues_of sample_data) = annual_queues_of sample_data \<and>
   gross_fte (compute_gross_impact fax_initiative (annual_queues_of sample_data)
                sample_roles sample_params) = 558/10"
proof -
  have h: "\<forall>q\<in>set (annual_queues_of sample_data). channel q \<notin> set (channels fax_initiative)"
    by code_simp
  have v: "gross_fte (gross_dispatch fax_initiative (annual_queues_of sample_data)
                        sample_roles sample_params) = 558/10"
    by code_simp
  show ?thesis
    using compute_gross_impact_no_channel_match[OF h, of sample_roles sample_params] v by simp
qed

text \<open>
  Claim C6 does not hold of the code. \<^verbatim>\<open>_gross_transfer\<close> reads the key
  \<^verbatim>\<open>preventable_transfer_pct\<close>, which neither the loader nor enrichment writes, and
  so always takes its default \<open>max(0.15, 0.55 - 0.40 * complexity)\<close> instead of the
  \<^verbatim>\<open>preventable_share\<close> that enrichment put into \<^verbatim>\<open>transfer_class\<close>. On the sample
  data (complexity 0.20, transfer rate 0.10, escalation rate 0.05) the code's share is
  0.47 and its gross impact 3.1 FTE, where the enrichment class (share 0.75) gives 4.9 FTE.
\<close>

theorem gross_transfer_not_enrichment_class:
  "preventable_transfer_pct sample_queue = None \<and>
   gross_fte (compute_gross_impact transfer_initiative (annual_queues_of sample_data)
                (data_roles sample_data) (data_params sample_data)) = 31/10 \<and>
   gross_transfer_fte_spec
     (matching_queues transfer_initiative (annual_queues_of sample_data))
     (net_prod_hours_of (data_params sample_data))
     (impact transfer_initiative) (adoption transfer_initiative) = 49/10"
  by code_simp


lemma sample_order: "sorted_inits deflection_initiatives = [0, 1, 2]"
  by code_simp

lemma sample_core:
  "snd (fold (\<lambda>i. step_core sample_data (annual_queues_of sample_data) (deflection_initiatives ! i))
          [0, 1, 2]
          (fst (compute_pools (enrich_intents (data_queues sample_data)) (data_roles sample_data)
                  (data_params sample_data)), \<lambda>_. 0)) ''Agent L1'' = 54"
  by code_simp

text \<open>
  Claim C1 does not hold of the code. The per-role check of step 4c compares the
  reduction with the head-room of the affected roles added up, and then splits the
  reduction by headcount share, whatever head-room each role has left. On the sample
  data, two deflection initiatives on Agent L1 (100 heads) allocate 18 FTE each; the
  third, on both agent roles, is capped at 36 FTE, within the summed head-room of
  9 + 45, and hands 18 of them to Agent L1, whose cumulative allocation becomes 54,
  above 0.45 * 100 = 45.
\<close>

theorem role_cum_exceeds_per_role_max:
  "map (\<lambda>r. (role r, headcount r)) (data_roles sample_data)
     = [(''Agent L1'', 100), (''Agent L2 / Specialist'', 100)] \<and>
   role_cum (cascade sample_data deflection_initiatives) ''Agent L1'' = 54 \<and>
   PER_ROLE_MAX_REDUCTION * 100 = 45"
proof -
  have "role_cum (cascade sample_data deflection_initiatives)
          = snd (cs_pools (cascade sample_data deflection_initiatives),
                 role_cum (cascade sample_data deflection_initiatives))"
    by simp
  then have "role_cum (cascade sample_data deflection_initiatives) ''Agent L1'' = 54"
    unfolding cascade_core sample_order using sample_core by simp
  then show ?thesis
    by (simp add: sample_data_def sample_roles_def PER_ROLE_MAX_REDUCTION_def)
qed

lemma one_head_order: "sorted_inits [one_head_initiative] = [0]"
  by code_simp

lemma one_head_aff:
  "sum_list (map headcount (affected_roles one_head_initiative (data_roles one_head_data))) = 1"
  by code_simp

lemma one_head_gross:
  "gross_fte (compute_gross_impact one_head_initiative (annual_queues_of one_head_data)
                (data_roles one_head_data) (data_params one_head_data)) = 1317/10"
  by code_simp

lemma one_head_red:
  "step_red one_head_data (annual_queues_of one_head_data) one_head_initiative
     (fst (compute_pools (enrich_intents (data_queues one_head_data)) (data_roles one_head_data)
             (data_params one_head_data)), \<lambda>_. 0) = 18/100"
  by code_simp

lemma one_head_lever: "lever one_head_initiative = ''deflection''"
  by (simp add: one_head_initiative_def new_initiative_def)

lemma one_head_impact:
  "out_fteImpact (cs_inits (cascade_step one_head_data (annual_queues_of one_head_data) 0
                              (initial_state one_head_data [one_head_initiative])) ! 0)
     = Some (2/10)"
proof -
  have nl: "\<not> is_location (compute_gross_impact one_head_initiative
              (annual_queues_of one_head_data) (data_roles one_head_data)
              (data_params one_head_data))"
    by (simp add: not_location_iff one_head_lever)
  have r: "round_nd 1 (18/100) = 2/10" by (simp add: round_nd_def py_round_def Let_def)
  show ?thesis
    using netting_fte_impact[of 0 "initial_state one_head_data [one_head_initiative]"
        one_head_data "annual_queues_of one_head_data"] nl one_head_aff one_head_red r
    by (simp add: initial_state_def)
qed

text \<open>
  Claim C3 as stated fails by the rounding of \<^verbatim>\<open>_fteImpact\<close>. A deflection initiative
  on a role of one head is capped at \<open>red = 0.18\<close>, the smaller of 0.20 * 1 and 0.18 * 1,
  and \<^verbatim>\<open>_fteImpact\<close> is \<open>round(0.18, 1) = 0.2\<close>, above the cap.
\<close>

theorem fte_impact_above_cap_counterexample:
  "out_fteImpact (cs_inits (cascade one_head_data [one_head_initiative]) ! 0) = Some (2/10) \<and>
   sum_list (map headcount (affected_roles one_head_initiative (data_roles one_head_data))) = 1 \<and>
   INITIATIVE_FTE_CAPS (lever one_head_initiative) = Some (18/100) \<and>
   \<not> (2/10 \<le> min (ABSOLUTE_SINGLE_INIT_CAP * 1) (18/100 * (1::real)))"
proof -
  have "cascade one_head_data [one_head_initiative]
          = cascade_step one_head_data (annual_queues_of one_head_data) 0
              (initial_state one_head_data [one_head_initiative])"
    by (simp add: cascade_def one_head_order)
  then show ?thesis
    using one_head_impact one_head_aff
    by (simp add: one_head_lever INITIATIVE_FTE_CAPS_def ABSOLUTE_SINGLE_INIT_CAP_def)
qed

theorem cascade_step_fte_impact_bounds_witness:
  "0 < length (cs_inits (initial_state one_head_data [one_head_initiative])) \<and>
   list_all (\<lambda>r. 0 \<le> headcount r) (data_roles one_head_data) \<and>
   0 \<le> gross_fte (compute_gross_impact one_head_initiative (annual_queues_of one_head_data)
                     (data_roles one_head_data) (data_params one_head_data)) \<and>
   (\<exists>red. out_fteImpact (cs_inits (cascade_step one_head_data (annual_queues_of one_head_data) 0
                                     (initial_state one_head_data [one_head_initiative])) ! 0)
             = Some (round_nd 1 red) \<and>
          red \<le> 1317/10 \<and> round_nd 1 red \<le> 1317/10 \<and>
          red \<le> 18/100 \<and> round_nd 1 red \<le> 18/100 + 1/20)"
proof -
  let ?st = "initial_state one_head_data [one_head_initiative]"
  have i: "cs_inits ?st ! 0 = one_head_initiative" by (simp add: initial_state_def)
  have h1: "0 < length (cs_inits ?st)" by (simp add: initial_state_def)
  have h2: "\<forall>r\<in>set (data_roles one_head_data). 0 \<le> headcount r"
    by (simp add: one_head_data_def)
  have h3: "0 \<le> gross_fte (compute_gross_impact (cs_inits ?st ! 0)
                (annual_queues_of one_head_data) (data_roles one_head_data)
                (data_params one_head_data))"
    unfolding i by (simp add: one_head_gross)
  have c: "min (ABSOLUTE_SINGLE_INIT_CAP * 1) (type_cap_factor ''deflection'' * 1) = 18/100"
    by (simp add: ABSOLUTE_SINGLE_INIT_CAP_def type_cap_factor_def INITIATIVE_FTE_CAPS_def)
  show ?thesis
    using cascade_step_fte_impact_bounds[OF h1 h2 h3] h1 h2 h3
    unfolding i one_head_aff one_head_gross one_head_lever c
    by (simp add: list_all_iff)
qed

lemma chat_no_readiness:
  "list_all (\<lambda>q. \<not> 0 < migration_readiness q)
     (matching_queues location_initiative (annual_queues_of chat_data))"
  by code_simp

theorem location_initiative_step_witness:
  "0 < length (cs_inits (initial_state chat_data [location_initiative])) \<and>
   lever location_initiative = ''cost_reduction'' \<and>
   list_all (\<lambda>q. complexity q \<le> 1) (data_queues chat_data) \<and>
   list_all (\<lambda>q. \<not> 0 < migration_readiness q)
     (matching_queues location_initiative (annual_queues_of chat_data)) \<and>
   out_fteImpact (cs_inits (cascade_step chat_data (annual_queues_of chat_data) 0
                              (initial_state chat_data [location_initiative])) ! 0) = Some 0 \<and>
   out_annualSaving (cs_inits (cascade_step chat_data (annual_queues_of chat_data) 0
                                 (initial_state chat_data [location_initiative])) ! 0) = Some 0 \<and>
   role_cum (cascade_step chat_data (annual_queues_of chat_data) 0
               (initial_state chat_data [location_initiative]))
     = role_cum (initial_state chat_data [location_initiative]) \<and>
   role_impact_yearly (cascade_step chat_data (annual_queues_of chat_data) 0
                         (initial_state chat_data [location_initiative]))
     = role_impact_yearly (initial_state chat_data [location_initiative])"
proof -
  let ?st = "initial_state chat_data [location_initiative]"
  have i: "cs_inits ?st ! 0 = location_initiative" by (simp add: initial_state_def)
  have h1: "0 < length (cs_inits ?st)" by (simp add: initial_state_def)
  have lv: "lever location_initiative = ''cost_reduction''"
    by (simp add: location_initiative_def new_initiative_def)
  have h2: "lever (cs_inits ?st ! 0) = ''cost_reduction''" unfolding i by (rule lv)
  have h3: "\<forall>q\<in>set (data_queues chat_data). complexity q \<le> 1"
    by (simp add: chat_data_def sample_queue_def)
  have h4: "\<forall>q\<in>set (matching_queues (cs_inits ?st ! 0) (annual_queues_of chat_data)).
              \<not> 0 < migration_readiness q"
    unfolding i using chat_no_readiness by (simp add: list_all_iff)
  show ?thesis
    using location_initiative_step[OF h1 h2 h3] h1 lv h3 h4 chat_no_readiness
    unfolding i by (simp add: list_all_iff)
qed

end
